theory Spec2Isabelle
  imports Complex_Main "HOL-Library.Word" "HOL-Library.Sublist" "HOL-Library.Log_Nat"
begin

unbundle bit_operations_syntax

section \<open>The countdown poster (send-countdown.js)\<close>

text \<open>
  A shallow embedding of \<^verbatim>\<open>send-countdown.js\<close>. Conventions:

  \<^item> A JavaScript string is the list of bytes of its UTF-8 encoding (the encoding in which
    the script hashes, stores and posts it), so an emoji is three or four \<^typ>\<open>char\<close>s.
  \<^item> A \<^verbatim>\<open>Date\<close> is its integer number of milliseconds. The differences of two dates
    and the day counts computed from them are integers; \<^verbatim>\<open>Math.floor\<close> and
    \<^verbatim>\<open>Math.ceil\<close> of a quotient are the floor and ceiling of the exact quotient, which
    are those of the binary64 quotient (lemma \<open>days_as_computed\<close>; the \<^verbatim>\<open>-0\<close> that
    \<^verbatim>\<open>Math.ceil\<close> can return compares, prints and is looked up as \<^verbatim>\<open>0\<close>).
  \<^item> The other numbers are \<open>jsnum\<close>: \<^verbatim>\<open>NaN\<close>, the two infinities, or a finite binary64
    number, read as the rational it denotes (\<^verbatim>\<open>-0\<close> as \<open>0\<close>). A quotient, a product and a
    difference are rounded as IEEE 754 rounds them: to the nearest binary64 number, a tie
    to the one with the even significand, and to an infinity from \<open>2^1024\<close> on.
  \<^item> What the platform provides is a parameter: the digests of Node's \<^verbatim>\<open>crypto\<close> and the
    answer of Slack's Web API are the record \<open>host\<close>, the clock and the time-zone database
    behind \<^verbatim>\<open>toLocaleString\<close> the record \<open>clock\<close>. The file \<^verbatim>\<open>.last_post_hash\<close> is an explicit
    state, \<open>fsys\<close>.
\<close>

subsection \<open>Strings\<close>

definition newline :: string where
  "newline = [CHR 0x0A]"

text \<open>\<^verbatim>\<open>Array.prototype.join\<close>.\<close>

fun join :: "string \<Rightarrow> string list \<Rightarrow> string" where
  "join sep [] = []"
| "join sep [x] = x"
| "join sep (x # y # ys) = x @ sep @ join sep (y # ys)"

definition digit :: "nat \<Rightarrow> char" where
  "digit n = ''0123456789abcdef'' ! n"

text \<open>The decimal digits of a natural number, and an integer in a template literal
  (JavaScript writes an integer below \<open>10^21\<close> in full; a day count is far below).\<close>

fun show_nat :: "nat \<Rightarrow> string" where
  "show_nat n = (if n < 10 then [digit n] else show_nat (n div 10) @ [digit (n mod 10)])"

declare show_nat.simps [simp del]

definition show_int :: "int \<Rightarrow> string" where
  "show_int i = (if i < 0 then ''-'' @ show_nat (nat (- i)) else show_nat (nat i))"

text \<open>The number of code points of a UTF-8 string: the bytes that are not continuation
  bytes \<^verbatim>\<open>10xxxxxx\<close>.\<close>

definition continuation :: "char \<Rightarrow> bool" where
  "continuation c = ((128 :: nat) \<le> of_char c \<and> of_char c < (192 :: nat))"

definition glyphs :: "string \<Rightarrow> nat" where
  "glyphs s = length (filter (\<lambda>c. \<not> continuation c) s)"

subsection \<open>Numbers\<close>

datatype jsnum = NaN | NegInf | Fin rat | PosInf

datatype error = RangeError

text \<open>Rounding to the nearest integer, a tie to the even one.\<close>

definition rne :: "rat \<Rightarrow> int" where
  "rne y =
     (let f = \<lfloor>y\<rfloor>; d = y - of_int f
      in if d < 1 / 2 then f else if 1 / 2 < d then f + 1 else if even f then f else f + 1)"

text \<open>The binary64 numbers near \<open>x\<close> are the multiples of \<open>2 powi ulp_exp x\<close>: the 53 bits
  of the significand end 52 places below the leading bit of \<open>x\<close>, and not below \<open>2^-1074\<close>,
  the spacing of the subnormal numbers.\<close>

definition ulp_exp :: "rat \<Rightarrow> int" where
  "ulp_exp x = max (bitlen \<lfloor>\<bar>x\<bar> * 2 ^ 1074\<rfloor> - 53) 0 - 1074"

text \<open>The exact result \<open>x\<close> of an operation rounded to binary64, the exponent unbounded
  above; and the number that the operation returns, an infinity on overflow.\<close>

definition binary64 :: "rat \<Rightarrow> rat" where
  "binary64 x = (let k = ulp_exp x in of_int (rne (x / 2 powi k)) * 2 powi k)"

definition number :: "rat \<Rightarrow> jsnum" where
  "number x =
     (let y = binary64 x
      in if 2 ^ 1024 \<le> y then PosInf else if y \<le> - (2 ^ 1024) then NegInf else Fin y)"

text \<open>The quotient of two integers, \<^verbatim>\<open>a / b\<close> (of two day counts, integers that binary64
  holds exactly).\<close>

definition js_div :: "int \<Rightarrow> int \<Rightarrow> jsnum" where
  "js_div a b =
     (if b = 0 then (if a = 0 then NaN else if 0 < a then PosInf else NegInf)
      else number (of_int a / of_int b))"

text \<open>\<^verbatim>\<open>Math.max(a, x)\<close> and \<^verbatim>\<open>Math.min(a, x)\<close> for a finite \<open>a\<close>.\<close>

fun Math_max :: "rat \<Rightarrow> jsnum \<Rightarrow> jsnum" where
  "Math_max a NaN = NaN"
| "Math_max a NegInf = Fin a"
| "Math_max a (Fin x) = Fin (max a x)"
| "Math_max a PosInf = PosInf"

fun Math_min :: "rat \<Rightarrow> jsnum \<Rightarrow> jsnum" where
  "Math_min a NaN = NaN"
| "Math_min a NegInf = NegInf"
| "Math_min a (Fin x) = Fin (min a x)"
| "Math_min a PosInf = Fin a"

text \<open>\<^verbatim>\<open>x * c\<close> and \<^verbatim>\<open>c - x\<close> for a finite, positive constant \<open>c\<close>.\<close>

fun js_times :: "jsnum \<Rightarrow> rat \<Rightarrow> jsnum" where
  "js_times NaN c = NaN"
| "js_times NegInf c = NegInf"
| "js_times (Fin x) c = number (x * c)"
| "js_times PosInf c = PosInf"

fun js_minus :: "rat \<Rightarrow> jsnum \<Rightarrow> jsnum" where
  "js_minus c NaN = NaN"
| "js_minus c NegInf = PosInf"
| "js_minus c (Fin x) = number (c - x)"
| "js_minus c PosInf = NegInf"

text \<open>\<^verbatim>\<open>Math.round\<close> rounds to the nearest integer, a tie towards \<open>+\<infinity>\<close>, without a
  rounding error.\<close>

fun Math_round :: "jsnum \<Rightarrow> jsnum" where
  "Math_round (Fin x) = Fin (of_int \<lfloor>x + 1 / 2\<rfloor>)"
| "Math_round x = x"

text \<open>\<^verbatim>\<open>String.prototype.repeat\<close>: the count is truncated towards zero, \<^verbatim>\<open>NaN\<close> counts
  as zero, and a negative or infinite count throws a \<^verbatim>\<open>RangeError\<close>.\<close>

fun repeat :: "string \<Rightarrow> jsnum \<Rightarrow> error + string" where
  "repeat s NaN = Inr []"
| "repeat s NegInf = Inl RangeError"
| "repeat s PosInf = Inl RangeError"
| "repeat s (Fin x) = (if x \<le> - 1 then Inl RangeError else Inr (concat (replicate (nat \<lfloor>x\<rfloor>) s)))"

text \<open>\<^verbatim>\<open>Number.prototype.toFixed(1)\<close>: the sign, then the integer \<open>n\<close> nearest to ten times
  the magnitude of the number itself (the larger one at a tie), written with a point before
  its last digit.
  (From \<open>10^21\<close> on JavaScript switches to the exponent notation, which is not modelled.)\<close>

definition fixed1 :: "rat \<Rightarrow> string" where
  "fixed1 x =
     (let n = nat \<lfloor>\<bar>x\<bar> * 10 + 1 / 2\<rfloor>
      in (if x < 0 then ''-'' else []) @ show_nat (n div 10) @ ''.'' @ [digit (n mod 10)])"

fun toFixed1 :: "jsnum \<Rightarrow> string" where
  "toFixed1 NaN = ''NaN''"
| "toFixed1 NegInf = ''-Infinity''"
| "toFixed1 PosInf = ''Infinity''"
| "toFixed1 (Fin x) = fixed1 x"

subsection \<open>Configuration constants\<close>

definition EVENT_NAME :: string where
  "EVENT_NAME = ''What have you done today to double your money?''"

definition MILESTONES :: "int set" where
  "MILESTONES = {90, 75, 60, 45, 30, 21, 14, 10, 7, 5, 3, 2, 1, 0}"

definition BAR_LENGTH :: rat where
  "BAR_LENGTH = 30"

definition BAR_FILLED :: string where
  "BAR_FILLED = [CHR 0xF0, CHR 0x9F, CHR 0x9F, CHR 0xA9]"

definition BAR_EMPTY :: string where
  "BAR_EMPTY = [CHR 0xE2, CHR 0xAC, CHR 0x9C]"

subsection \<open>Day arithmetic\<close>

text \<open>\<^verbatim>\<open>daysDiff(a, b)\<close>: \<open>b - a\<close> in whole days, rounded down.\<close>

definition daysDiff :: "int \<Rightarrow> int \<Rightarrow> int" where
  "daysDiff a b = (let ms = b - a in \<lfloor>(of_int ms :: rat) / 86400000\<rfloor>)"

text \<open>\<^verbatim>\<open>daysLeft(nowLocal, targetLocal)\<close>: rounded up.\<close>

definition daysLeft :: "int \<Rightarrow> int \<Rightarrow> int" where
  "daysLeft nowLocal targetLocal = \<lceil>(of_int (targetLocal - nowLocal) :: rat) / 86400000\<rceil>"

subsection \<open>The progress bar\<close>

text \<open>The body of \<^verbatim>\<open>buildProgress\<close> after its first line, as a function of \<open>ratio\<close>.\<close>

definition progress :: "jsnum \<Rightarrow> error + (string \<times> string)" where
  "progress ratio =
     (let filled = Math_round (js_times ratio BAR_LENGTH) in
      case repeat BAR_FILLED filled of
        Inl e \<Rightarrow> Inl e
      | Inr full \<Rightarrow>
          (case repeat BAR_EMPTY (js_minus BAR_LENGTH filled) of
             Inl e \<Rightarrow> Inl e
           | Inr blank \<Rightarrow>
               (let bar = full @ blank;
                    pct = toFixed1 (js_times ratio 100)
                in Inr (bar, pct))))"

definition buildProgress :: "int \<Rightarrow> int \<Rightarrow> error + (string \<times> string)" where
  "buildProgress elapsedDays totalDays =
     (let ratio = Math_min 1 (Math_max 0 (js_div elapsedDays totalDays))
      in progress ratio)"

subsection \<open>Digests\<close>

text \<open>The platform: the MD5 and SHA-1 digests of a byte string, and the answer of Slack's
  \<^verbatim>\<open>chat.postMessage\<close> to a token and a text (\<open>True\<close> when the promise resolves).\<close>

record host =
  md5 :: "string \<Rightarrow> 128 word"
  sha1 :: "string \<Rightarrow> 160 word"
  postMessage :: "string option \<Rightarrow> string \<Rightarrow> bool"

text \<open>\<^verbatim>\<open>digest("hex")\<close>: two lower-case hexadecimal digits a byte, the first byte first.\<close>

definition hex :: "'a::len word \<Rightarrow> string" where
  "hex w = map (\<lambda>i. digit (unat (take_bit 4 (drop_bit (4 * i) w)))) (rev [0..<LENGTH('a) div 4])"

text \<open>\<^verbatim>\<open>parseInt(s, 16)\<close> on a string of digits: the value of the longest prefix of
  hexadecimal digits, \<^verbatim>\<open>NaN\<close> (here \<open>None\<close>) when there is none. (The leading white space,
  sign and \<^verbatim>\<open>0x\<close> that \<^verbatim>\<open>parseInt\<close> also accepts do not occur in a digest.)\<close>

definition hex_value :: "char \<Rightarrow> nat option" where
  "hex_value c =
     (let n = (of_char c :: nat) in
      if 48 \<le> n \<and> n \<le> 57 then Some (n - 48)
      else if 97 \<le> n \<and> n \<le> 102 then Some (n - 87)
      else if 65 \<le> n \<and> n \<le> 70 then Some (n - 55)
      else None)"

fun parse_digits :: "nat \<Rightarrow> string \<Rightarrow> nat" where
  "parse_digits acc [] = acc"
| "parse_digits acc (c # cs) =
     (case hex_value c of None \<Rightarrow> acc | Some v \<Rightarrow> parse_digits (16 * acc + v) cs)"

definition parseInt16 :: "string \<Rightarrow> nat option" where
  "parseInt16 s =
     (case s of
        [] \<Rightarrow> None
      | c # cs \<Rightarrow> (case hex_value c of None \<Rightarrow> None | Some v \<Rightarrow> Some (parse_digits 0 s)))"

text \<open>\<^verbatim>\<open>parseInt(digest.slice(0, 8), 16) % n\<close>; \<^verbatim>\<open>NaN % n\<close> is \<^verbatim>\<open>NaN\<close>.\<close>

definition pick_index :: "string \<Rightarrow> nat \<Rightarrow> nat option" where
  "pick_index digest n = map_option (\<lambda>v. v mod n) (parseInt16 (take 8 digest))"

text \<open>\<^verbatim>\<open>xs[i]\<close> inside a template literal: an index that is \<^verbatim>\<open>NaN\<close> or out of range
  reads \<^verbatim>\<open>undefined\<close>, which the template writes out.\<close>

definition element :: "string list \<Rightarrow> nat option \<Rightarrow> string" where
  "element xs i = (case i of None \<Rightarrow> ''undefined'' | Some k \<Rightarrow> if k < length xs then xs ! k else ''undefined'')"

subsection \<open>The nudge\<close>

definition generic :: "string list" where
  "generic =
    [''What *specifically* did you do today to move the doubling needle?'',
     ''Tiny compounding moves > heroic last-minute swings.'',
     ''If you can'' @ [CHR 0xE2, CHR 0x80, CHR 0x99] @ ''t write one actionable line you did'' @
       [CHR 0xE2, CHR 0x80, CHR 0x94] @ ''fix that *now*.'',
     ''Momentum beats perfection. Ship a micro-improvement.'',
     ''Eliminate one drag, amplify one driver.'']"

definition milestoneFlavor :: "string list" where
  "milestoneFlavor =
    [''Milestone check-in: write *one concrete win* in a thread.'',
     ''Drop a '' @ [CHR 0xE2, CHR 0x9C, CHR 0x85] @ '' in thread once you'' @
       [CHR 0xE2, CHR 0x80, CHR 0x99] @ ''ve executed *one task* toward doubling.'',
     ''Share your fastest experiment idea'' @ [CHR 0xE2, CHR 0x80, CHR 0x94] @ ''speed > certainty.'',
     ''Name a blocker *and* the next action to crush it.'',
     ''Brag moment: what metric nudged upward recently?'']"

text \<open>The six templates of \<^verbatim>\<open>pickNudge\<close>.\<close>

definition days_left_line :: "int \<Rightarrow> string \<Rightarrow> string" where
  "days_left_line dleft pct =
     [CHR 0xE2, CHR 0x8F, CHR 0xB3] @ '' *'' @ show_int dleft @ '' days left* ('' @ pct @ ''% done).''"

definition last_call_line :: "string \<Rightarrow> string" where
  "last_call_line pct =
     [CHR 0xF0, CHR 0x9F, CHR 0x94, CHR 0xA5] @ '' *1 day left!* ('' @ pct @ ''% done). Last call.''"

definition final_day_line :: "string \<Rightarrow> string" where
  "final_day_line pct =
     [CHR 0xF0, CHR 0x9F, CHR 0x9A, CHR 0x80] @ '' *Today is the final day!* ('' @ pct @
       ''% complete). Make it count.''"

definition prompt_tag :: string where
  "prompt_tag = [CHR 0xF0, CHR 0x9F, CHR 0x92, CHR 0xA1] @ '' *Prompt:* ''"

definition milestone_tag :: string where
  "milestone_tag = [CHR 0xF0, CHR 0x9F, CHR 0x8E, CHR 0xAF] @ '' *Milestone Prompt:* ''"

definition retro_line :: string where
  "retro_line =
     [CHR 0xF0, CHR 0x9F, CHR 0x8F, CHR 0x81] @
     '' *Project is over after today.* Post a retro: What worked? What was noise? What will you keep doing?''"

definition seedSource :: "int \<Rightarrow> string \<Rightarrow> string" where
  "seedSource dleft pct = show_int dleft @ ''-'' @ pct"

text \<open>The array \<^verbatim>\<open>lines\<close> of \<^verbatim>\<open>pickNudge\<close> when it returns: each \<^verbatim>\<open>push\<close> appends.\<close>

definition pickNudge_lines :: "host \<Rightarrow> int \<Rightarrow> string \<Rightarrow> bool \<Rightarrow> string list" where
  "pickNudge_lines h dleft pct isMilestone =
     (let lines0 =
            (if dleft > 1 then [days_left_line dleft pct]
             else if dleft = 1 then [last_call_line pct]
             else if dleft = 0 then [final_day_line pct]
             else []);
          idx = pick_index (hex (md5 h (seedSource dleft pct))) (length generic);
          baseNudge = element generic idx;
          lines1 = (if dleft > 0 then lines0 @ [prompt_tag @ baseNudge] else lines0);
          lines2 =
            (if isMilestone \<and> dleft > 0 then
               (let midx = pick_index (hex (sha1 h (seedSource dleft pct))) (length milestoneFlavor)
                in lines1 @ [milestone_tag @ element milestoneFlavor midx])
             else lines1);
          lines3 = (if dleft = 0 then lines2 @ [retro_line] else lines2)
      in lines3)"

definition pickNudge :: "host \<Rightarrow> int \<Rightarrow> string \<Rightarrow> bool \<Rightarrow> string" where
  "pickNudge h dleft pct isMilestone = join newline (pickNudge_lines h dleft pct isMilestone)"

subsection \<open>The dedup guard\<close>

text \<open>The file \<^verbatim>\<open>.last_post_hash\<close>: its content when it exists, and whether reading and
  writing it succeed. The three calls of \<^verbatim>\<open>fs\<close> return an error where Node throws.\<close>

record fsys =
  content :: "string option"
  readable :: bool
  writable :: bool

datatype fs_error = ENOENT | EACCES

definition existsSync :: "fsys \<Rightarrow> bool" where
  "existsSync fs = (content fs \<noteq> None)"

definition readFileSync :: "fsys \<Rightarrow> fs_error + string" where
  "readFileSync fs =
     (case content fs of
        None \<Rightarrow> Inl ENOENT
      | Some s \<Rightarrow> if readable fs then Inr s else Inl EACCES)"

definition writeFileSync :: "fsys \<Rightarrow> string \<Rightarrow> fs_error + fsys" where
  "writeFileSync fs s = (if writable fs then Inr (fs\<lparr>content := Some s\<rparr>) else Inl EACCES)"

text \<open>\<^verbatim>\<open>String.prototype.trim\<close>: the white space and line terminators of ECMAScript, in
  UTF-8, are removed from both ends.\<close>

definition white_space :: "string list" where
  "white_space =
    [[CHR 0x09], [CHR 0x0A], [CHR 0x0B], [CHR 0x0C], [CHR 0x0D], [CHR 0x20],
     [CHR 0xC2, CHR 0xA0], [CHR 0xE1, CHR 0x9A, CHR 0x80],
     [CHR 0xE2, CHR 0x80, CHR 0x80], [CHR 0xE2, CHR 0x80, CHR 0x81], [CHR 0xE2, CHR 0x80, CHR 0x82],
     [CHR 0xE2, CHR 0x80, CHR 0x83], [CHR 0xE2, CHR 0x80, CHR 0x84], [CHR 0xE2, CHR 0x80, CHR 0x85],
     [CHR 0xE2, CHR 0x80, CHR 0x86], [CHR 0xE2, CHR 0x80, CHR 0x87], [CHR 0xE2, CHR 0x80, CHR 0x88],
     [CHR 0xE2, CHR 0x80, CHR 0x89], [CHR 0xE2, CHR 0x80, CHR 0x8A], [CHR 0xE2, CHR 0x80, CHR 0xA8],
     [CHR 0xE2, CHR 0x80, CHR 0xA9], [CHR 0xE2, CHR 0x80, CHR 0xAF], [CHR 0xE2, CHR 0x81, CHR 0x9F],
     [CHR 0xE3, CHR 0x80, CHR 0x80], [CHR 0xEF, CHR 0xBB, CHR 0xBF]]"

function strip :: "string list \<Rightarrow> string \<Rightarrow> string" where
  "strip toks s =
     (case find (\<lambda>t. t \<noteq> [] \<and> prefix t s) toks of
        None \<Rightarrow> s
      | Some t \<Rightarrow> strip toks (drop (length t) s))"
  by pat_completeness auto
termination
proof (relation "measure (\<lambda>(toks, s). length s)")
  show "wf (measure (\<lambda>(toks, s). length s))"
    by simp
next
  fix toks :: "string list" and s t :: string
  assume "find (\<lambda>t. t \<noteq> [] \<and> prefix t s) toks = Some t"
  then have "t \<noteq> [] \<and> prefix t s"
    by (auto simp: find_Some_iff)
  then obtain c cs where "t = c # cs" and "length t \<le> length s"
    by (cases t) (auto simp: prefix_def)
  then show "((toks, drop (length t) s), (toks, s)) \<in> measure (\<lambda>(toks, s). length s)"
    by (cases s) auto
qed

declare strip.simps [simp del]

definition trim :: "string \<Rightarrow> string" where
  "trim s = rev (strip (map rev white_space) (rev (strip white_space s)))"

text \<open>The \<^verbatim>\<open>try\<close> block of \<^verbatim>\<open>alreadyPostedGuard(hash)\<close>, with the file before and after:
  it throws, or returns \<^verbatim>\<open>true\<close>, or falls through to the \<^verbatim>\<open>return false\<close> after it.\<close>

definition guard_try :: "fsys \<Rightarrow> string \<Rightarrow> fs_error + (bool \<times> fsys)" where
  "guard_try fs hash =
     (case (if existsSync fs then
              (case readFileSync fs of
                 Inl e \<Rightarrow> Inl e
               | Inr s \<Rightarrow> (let prev = trim s in Inr (prev = hash)))
            else Inr False) of
        Inl e \<Rightarrow> Inl e
      | Inr True \<Rightarrow> Inr (True, fs)
      | Inr False \<Rightarrow>
          (case writeFileSync fs hash of
             Inl e \<Rightarrow> Inl e
           | Inr fs' \<Rightarrow> Inr (False, fs')))"

text \<open>The \<^verbatim>\<open>catch\<close> ignores the exception, and \<^verbatim>\<open>false\<close> is returned.\<close>

definition alreadyPostedGuard :: "fsys \<Rightarrow> string \<Rightarrow> bool \<times> fsys" where
  "alreadyPostedGuard fs hash =
     (case guard_try fs hash of
        Inl e \<Rightarrow> (False, fs)
      | Inr r \<Rightarrow> r)"

subsection \<open>The run\<close>

text \<open>The environment \<^verbatim>\<open>process.env\<close>: the three variables that the script reads, each
  unset or set to a string.\<close>

record env =
  SLACK_WEBHOOK_URL :: "string option"
  SLACK_BOT_TOKEN :: "string option"
  env_TZ :: "string option"

text \<open>\<^verbatim>\<open>!WEBHOOK\<close>: an unset variable and the empty string are falsy.\<close>

definition falsy :: "string option \<Rightarrow> bool" where
  "falsy v = (case v of None \<Rightarrow> True | Some s \<Rightarrow> s = [])"

definition START_DATE :: string where
  "START_DATE = ''2025-07-20''"

definition TARGET_DATE :: string where
  "TARGET_DATE = ''2025-10-18''"

text \<open>The constant \<^verbatim>\<open>TZ\<close>, \<^verbatim>\<open>process.env.TZ || "Asia/Jerusalem"\<close>.\<close>

definition TZ :: "env \<Rightarrow> string" where
  "TZ e = (case env_TZ e of None \<Rightarrow> ''Asia/Jerusalem'' | Some z \<Rightarrow> if z = [] then ''Asia/Jerusalem'' else z)"

text \<open>The time resolver. \<^verbatim>\<open>todayLocal(tz)\<close> and \<^verbatim>\<open>localStartOfDay(dateStr, tz)\<close> call
  \<^verbatim>\<open>toLocaleString("en-US", { timeZone: tz })\<close>, which throws a \<^verbatim>\<open>RangeError\<close> when the
  platform does not know the time zone \<^verbatim>\<open>tz\<close>, and otherwise give an instant, in
  milliseconds. What they return at the moment of the run is the record \<open>clock\<close>.\<close>

record clock =
  todayLocal :: "string \<Rightarrow> error + int"
  localStartOfDay :: "string \<Rightarrow> string \<Rightarrow> error + int"

record times =
  now :: int
  start :: int
  target :: int

text \<open>Lines 151 to 153 of \<^verbatim>\<open>main\<close>: the three instants, or the exception of the first call
  that throws.\<close>

definition resolve :: "clock \<Rightarrow> string \<Rightarrow> error + times" where
  "resolve c tz =
     (case todayLocal c tz of
        Inl x \<Rightarrow> Inl x
      | Inr n \<Rightarrow>
          (case localStartOfDay c START_DATE tz of
             Inl x \<Rightarrow> Inl x
           | Inr s \<Rightarrow>
               (case localStartOfDay c TARGET_DATE tz of
                  Inl x \<Rightarrow> Inl x
                | Inr g \<Rightarrow> Inr \<lparr>now = n, start = s, target = g\<rparr>)))"

definition totalDays :: "times \<Rightarrow> int" where
  "totalDays t = daysDiff (start t) (target t)"

definition elapsedDays :: "times \<Rightarrow> int" where
  "elapsedDays t = min (totalDays t) (max 0 (daysDiff (start t) (now t)))"

definition remaining :: "times \<Rightarrow> int" where
  "remaining t = daysLeft (now t) (target t)"

text \<open>Lines 155 to 176 of \<^verbatim>\<open>main\<close>, at the instants \<open>t\<close>: the window has elapsed, or an
  exception escapes, or the text \<^verbatim>\<open>core\<close> is composed.\<close>

datatype composed = Elapsed | Thrown error | Text string

definition header :: string where
  "header = ''*'' @ EVENT_NAME @ ''*''"

definition progressLine :: "string \<Rightarrow> string \<Rightarrow> string" where
  "progressLine bar pct = bar @ '' '' @ pct @ ''%''"

definition compose :: "host \<Rightarrow> times \<Rightarrow> composed" where
  "compose h t =
     (let isMilestone = (remaining t \<in> MILESTONES) in
      if remaining t < 0 then Elapsed
      else
        (case buildProgress (elapsedDays t) (totalDays t) of
           Inl e \<Rightarrow> Thrown e
         | Inr (bar, pct) \<Rightarrow>
             (let nudge = pickNudge h (remaining t) pct isMilestone;
                  core = header @ newline @ progressLine bar pct @ newline @ nudge
              in Text core)))"

text \<open>How a run ends, and the exit status of the process: \<^verbatim>\<open>process.exit(1)\<close> is called on
  a missing webhook and on a rejected post, an uncaught exception (that of the time
  resolver, which no \<^verbatim>\<open>try\<close> encloses) ends Node with status 1, and a run that returns ends
  with status 0.\<close>

datatype outcome =
    MissingConfig
  | WindowElapsed
  | Uncaught error
  | DuplicateSkip string
  | Posted string
  | PostFailed string

fun exit_status :: "outcome \<Rightarrow> nat" where
  "exit_status MissingConfig = 1"
| "exit_status WindowElapsed = 0"
| "exit_status (Uncaught e) = 1"
| "exit_status (DuplicateSkip core) = 0"
| "exit_status (Posted core) = 0"
| "exit_status (PostFailed core) = 1"

text \<open>The texts handed to the publisher in a run.\<close>

fun published :: "outcome \<Rightarrow> string list" where
  "published (Posted core) = [core]"
| "published (PostFailed core) = [core]"
| "published _ = []"

text \<open>\<^verbatim>\<open>main\<close>, with the file before and after the run.\<close>

definition main :: "host \<Rightarrow> clock \<Rightarrow> env \<Rightarrow> fsys \<Rightarrow> outcome \<times> fsys" where
  "main h c e fs =
     (if falsy (SLACK_WEBHOOK_URL e) then (MissingConfig, fs)
      else
        (case resolve c (TZ e) of
           Inl x \<Rightarrow> (Uncaught x, fs)
         | Inr t \<Rightarrow>
             (case compose h t of
                Elapsed \<Rightarrow> (WindowElapsed, fs)
              | Thrown x \<Rightarrow> (Uncaught x, fs)
              | Text core \<Rightarrow>
                  (let hash = hex (md5 h core) in
                   case alreadyPostedGuard fs hash of
                     (True, fs') \<Rightarrow> (DuplicateSkip core, fs')
                   | (False, fs') \<Rightarrow>
                       if postMessage h (SLACK_BOT_TOKEN e) core then (Posted core, fs')
                       else (PostFailed core, fs')))))"

subsection \<open>Notions used to state the properties\<close>

text \<open>The clamp of the specification: \<open>x\<close> brought into \<open>[lo, hi]\<close>.\<close>

definition clamp :: "int \<Rightarrow> int \<Rightarrow> int \<Rightarrow> int" where
  "clamp x lo hi = (if x < lo then lo else if hi < x then hi else x)"

text \<open>A string with exactly one decimal digit: decimal digits, a point, one decimal digit.\<close>

definition is_decimal :: "char \<Rightarrow> bool" where
  "is_decimal c = (c \<in> set ''0123456789'')"

definition one_decimal :: "string \<Rightarrow> bool" where
  "one_decimal s =
     (case rev s of
        d # p # ds \<Rightarrow> is_decimal d \<and> p = CHR ''.'' \<and> ds \<noteq> [] \<and> list_all is_decimal ds
      | _ \<Rightarrow> False)"

text \<open>The number that a string of decimal digits denotes, and the number that a string
  with one decimal digit denotes: its digits, read without the point, in tenths.\<close>

definition read_nat :: "string \<Rightarrow> nat" where
  "read_nat s = foldl (\<lambda>a c. 10 * a + (of_char c - 48)) 0 s"

definition read_fixed1 :: "string \<Rightarrow> rat" where
  "read_fixed1 s = of_nat (read_nat (filter (\<lambda>c. c \<noteq> CHR ''.'') s)) / 10"

text \<open>A lower-case hexadecimal digit.\<close>

definition is_hex :: "char \<Rightarrow> bool" where
  "is_hex c = (c \<in> set ''0123456789abcdef'')"

text \<open>The lines of a text, as \<^verbatim>\<open>split("\n")\<close> gives them, and a string without a line
  feed.\<close>

fun split_lines :: "string \<Rightarrow> string list" where
  "split_lines [] = [[]]"
| "split_lines (c # cs) =
     (if c = CHR 0x0A then [] # split_lines cs
      else (case split_lines cs of [] \<Rightarrow> [[c]] | l # ls \<Rightarrow> (c # l) # ls))"

definition plain :: "string \<Rightarrow> bool" where
  "plain s = (CHR 0x0A \<notin> set s)"

text \<open>The \<^verbatim>\<open>bar\<close> and \<^verbatim>\<open>pct\<close> that \<^verbatim>\<open>main\<close> takes from \<^verbatim>\<open>buildProgress\<close>, and the lines
  of the text that a run composes (none when it composes no text).\<close>

definition bar_of :: "times \<Rightarrow> string" where
  "bar_of t = (case buildProgress (elapsedDays t) (totalDays t) of Inr (bar, pct) \<Rightarrow> bar | Inl e \<Rightarrow> [])"

definition percent :: "times \<Rightarrow> string" where
  "percent t = (case buildProgress (elapsedDays t) (totalDays t) of Inr (bar, pct) \<Rightarrow> pct | Inl e \<Rightarrow> [])"

definition message_lines :: "host \<Rightarrow> times \<Rightarrow> string list" where
  "message_lines h t = (case compose h t of Text core \<Rightarrow> split_lines core | _ \<Rightarrow> [])"

text \<open>What a run past the configuration check composes, lines 151 to 176 of \<^verbatim>\<open>main\<close>: the
  exception of the time resolver, or what is composed at the instants it gives.\<close>

definition text_of_run :: "host \<Rightarrow> clock \<Rightarrow> env \<Rightarrow> composed" where
  "text_of_run h c e = (case resolve c (TZ e) of Inl x \<Rightarrow> Thrown x | Inr t \<Rightarrow> compose h t)"

text \<open>The candidate that the first 32 bits of the digest of the seed select, modulo the
  number of candidates: MD5 for the generic line, SHA-1 for the milestone line.\<close>

definition chosen_generic :: "host \<Rightarrow> int \<Rightarrow> string \<Rightarrow> string" where
  "chosen_generic h dleft pct =
     generic ! (unat (drop_bit 96 (md5 h (seedSource dleft pct))) mod length generic)"

definition chosen_milestone :: "host \<Rightarrow> int \<Rightarrow> string \<Rightarrow> string" where
  "chosen_milestone h dleft pct =
     milestoneFlavor ! (unat (drop_bit 128 (sha1 h (seedSource dleft pct))) mod length milestoneFlavor)"

text \<open>A sample platform and sample runs, for the concrete instances of the properties.
  The first 32 bits of the sample MD5 digest are the length of the input, those of the
  sample SHA-1 digest that length plus one, and the sample Slack accepts a token that is
  set. The sample clock \<open>demo_clock t\<close> knows one time zone, \<^verbatim>\<open>Asia/Jerusalem\<close>, in which it
  gives the instants \<open>t\<close>; \<open>demo_zone_env\<close> sets \<^verbatim>\<open>TZ\<close> to a zone that it does not know. The
  window is 90 days from the instant 0. The runs are at 09:00 two days before the
  target (\<open>demo_times\<close>) and again at 10:00 (\<open>demo_rerun\<close>), at 09:00 four days before the
  target (\<open>demo_quiet\<close>), on its eve (\<open>demo_eve\<close>), on the target day (\<open>demo_final\<close>) and on
  the day after (\<open>demo_late\<close>); \<open>demo_core\<close> and \<open>demo_final_core\<close> are the texts of the first
  and of the target day, \<open>demo_stored\<close> the file after the first text was stored.\<close>

definition demo_host :: host where
  "demo_host =
     \<lparr>md5 = (\<lambda>s. push_bit 96 (word_of_nat (length s))),
      sha1 = (\<lambda>s. push_bit 128 (word_of_nat (length s + 1))),
      postMessage = (\<lambda>token text. token \<noteq> None)\<rparr>"

definition demo_env :: env where
  "demo_env =
     \<lparr>SLACK_WEBHOOK_URL = Some ''https://hooks.slack.com/services/T0'', SLACK_BOT_TOKEN = None,
      env_TZ = None\<rparr>"

definition demo_zone_env :: env where
  "demo_zone_env =
     \<lparr>SLACK_WEBHOOK_URL = Some ''https://hooks.slack.com/services/T0'', SLACK_BOT_TOKEN = None,
      env_TZ = Some ''Mars/Phobos''\<rparr>"

definition demo_clock :: "times \<Rightarrow> clock" where
  "demo_clock t =
     \<lparr>todayLocal = (\<lambda>tz. if tz = ''Asia/Jerusalem'' then Inr (now t) else Inl RangeError),
      localStartOfDay =
        (\<lambda>d tz. if tz = ''Asia/Jerusalem'' then Inr (if d = START_DATE then start t else target t)
                else Inl RangeError)\<rparr>"

definition demo_times :: times where
  "demo_times = \<lparr>now = 7635600000, start = 0, target = 7776000000\<rparr>"

definition demo_late :: times where
  "demo_late = \<lparr>now = 7894800000, start = 0, target = 7776000000\<rparr>"

definition demo_fs :: fsys where
  "demo_fs = \<lparr>content = None, readable = True, writable = True\<rparr>"

definition demo_core :: string where
  "demo_core =
     join newline
       [header,
        progressLine (concat (replicate 29 BAR_FILLED) @ BAR_EMPTY) ''97.8'',
        days_left_line 2 ''97.8'',
        prompt_tag @ generic ! 1,
        milestone_tag @ milestoneFlavor ! 2]"

definition demo_stored :: fsys where
  "demo_stored = \<lparr>content = Some (hex (md5 demo_host demo_core)), readable = True, writable = True\<rparr>"

definition demo_blank_env :: env where
  "demo_blank_env = \<lparr>SLACK_WEBHOOK_URL = Some [], SLACK_BOT_TOKEN = None, env_TZ = None\<rparr>"

definition demo_rerun :: times where
  "demo_rerun = \<lparr>now = 7639200000, start = 0, target = 7776000000\<rparr>"

definition demo_eve :: times where
  "demo_eve = \<lparr>now = 7722000000, start = 0, target = 7776000000\<rparr>"

definition demo_final :: times where
  "demo_final = \<lparr>now = 7808400000, start = 0, target = 7776000000\<rparr>"

definition demo_quiet :: times where
  "demo_quiet = \<lparr>now = 7462800000, start = 0, target = 7776000000\<rparr>"

definition demo_final_core :: string where
  "demo_final_core =
     join newline
       [header, progressLine (concat (replicate 30 BAR_FILLED)) ''100.0'',
        final_day_line ''100.0'', retro_line]"

section \<open>Properties\<close>

subsection \<open>Rounding to binary64\<close>

lemma rne_floor: "\<lfloor>y\<rfloor> \<le> rne y"
  by (simp add: rne_def Let_def)

lemma rne_ceiling: "rne y \<le> \<lceil>y\<rceil>"
proof (cases "y = of_int \<lfloor>y\<rfloor>")
  case True
  then have "y - of_int \<lfloor>y\<rfloor> = 0"
    by simp
  then have "rne y = \<lfloor>y\<rfloor>"
    by (simp add: rne_def Let_def)
  then show ?thesis
    by (simp add: floor_le_ceiling)
next
  case False
  then have "\<lceil>y\<rceil> = \<lfloor>y\<rfloor> + 1"
    by (metis ceiling_altdef)
  then show ?thesis
    by (simp add: rne_def Let_def)
qed

lemma rne_close: "\<bar>of_int (rne y) - y\<bar> \<le> 1 / 2"
proof -
  have "of_int \<lfloor>y\<rfloor> \<le> y" "y < of_int \<lfloor>y\<rfloor> + 1"
    by linarith+
  then show ?thesis
    by (auto simp: rne_def Let_def abs_le_iff)
qed

text \<open>The rounding of a fraction of integers, by integer division.\<close>

lemma rne_frac:
  assumes "0 < b"
  shows "rne (of_int a / of_int b) =
    (if 2 * (a mod b) < b then a div b
     else if b < 2 * (a mod b) then a div b + 1
     else if even (a div b) then a div b else a div b + 1)"
proof -
  define y :: rat where "y = of_int a / of_int b"
  define q where "q = a div b"
  define m where "m = a mod b"
  have f: "\<lfloor>y\<rfloor> = q"
    unfolding y_def q_def by (rule floor_divide_of_int_eq)
  have "(of_int a :: rat) = of_int (b * (a div b) + a mod b)"
    by (simp only: mult_div_mod_eq)
  then have "(of_int a :: rat) = of_int b * of_int q + of_int m"
    by (simp only: of_int_add of_int_mult q_def m_def)
  then have d: "y - of_int q = of_int m / of_int b"
    using assms by (simp add: y_def field_simps)
  have "(of_int m / of_int b :: rat) < 1 / 2 \<longleftrightarrow> of_int (2 * m) < (of_int b :: rat)"
    using assms by (simp add: field_simps)
  then have lt: "(of_int m / of_int b :: rat) < 1 / 2 \<longleftrightarrow> 2 * m < b"
    by (simp only: of_int_less_iff)
  have "1 / 2 < (of_int m / of_int b :: rat) \<longleftrightarrow> (of_int b :: rat) < of_int (2 * m)"
    using assms by (simp add: field_simps)
  then have gt: "1 / 2 < (of_int m / of_int b :: rat) \<longleftrightarrow> b < 2 * m"
    by (simp only: of_int_less_iff)
  have "rne y = (if 2 * m < b then q else if b < 2 * m then q + 1 else if even q then q else q + 1)"
    by (simp only: rne_def Let_def f d lt gt)
  then show ?thesis
    by (simp only: y_def q_def m_def)
qed

lemma rne_numeral:
  "rne (numeral a / numeral b) =
    (if 2 * (numeral a mod numeral b) < (numeral b :: int) then numeral a div numeral b
     else if numeral b < 2 * (numeral a mod numeral b :: int) then numeral a div numeral b + 1
     else if even (numeral a div numeral b :: int) then numeral a div numeral b
     else numeral a div numeral b + 1)"
  using rne_frac [of "numeral b" "numeral a"] by simp

lemma rne_of_int: "rne (of_int n) = n"
  by (simp add: rne_def)

lemma rne_int_numeral: "rne (numeral n) = numeral n"
  using rne_of_int [of "numeral n"] by simp

lemma bitlen_le_floor:
  assumes "\<bar>x\<bar> < 2 ^ n"
  shows "bitlen \<lfloor>\<bar>x\<bar> * 2 ^ 1074\<rfloor> \<le> int n + 1074"
proof -
  have "\<bar>x\<bar> * 2 ^ 1074 < 2 ^ n * 2 ^ 1074"
    using assms by simp
  also have "\<dots> = of_int (2 ^ (n + 1074))"
    by (simp add: power_add)
  finally have "\<lfloor>\<bar>x\<bar> * 2 ^ 1074\<rfloor> < 2 ^ (n + 1074)"
    by (simp add: floor_less_iff)
  then show ?thesis
    by (simp add: bitlen_le_iff_power nat_add_distrib)
qed

lemma ulp_exp_small:
  assumes "\<bar>x\<bar> < 2 ^ n"
  shows "ulp_exp x \<le> max (int n - 53) (- 1074)"
  using bitlen_le_floor [OF assms] by (simp add: ulp_exp_def)

text \<open>The exponent of the last place of a number whose leading bit is at \<open>e\<close>.\<close>

lemma ulp_exp_eval:
  assumes "2 powi e \<le> \<bar>x\<bar>" "\<bar>x\<bar> < 2 powi (e + 1)" "- 1022 \<le> e"
  shows "ulp_exp x = e - 52"
proof -
  define n where "n = \<lfloor>\<bar>x\<bar> * 2 ^ 1074\<rfloor>"
  have e: "0 \<le> e + 1074"
    using assms(3) by simp
  have "(2 :: rat) powi (e + 1074) = 2 powi e * 2 ^ 1074"
    by (simp add: power_int_add)
  then have "of_int (2 ^ nat (e + 1074)) \<le> \<bar>x\<bar> * 2 ^ 1074"
    using assms(1) e by (simp add: power_int_def)
  then have lo: "2 ^ nat (e + 1074) \<le> n"
    unfolding n_def by (simp only: le_floor_iff)
  have "(2 :: rat) powi (e + 1 + 1074) = 2 powi (e + 1) * 2 ^ 1074"
    by (simp add: power_int_add)
  then have "\<bar>x\<bar> * 2 ^ 1074 < of_int (2 ^ nat (e + 1075))"
    using assms(2) e by (simp add: power_int_def add.commute)
  then have hi: "n < 2 ^ nat (e + 1075)"
    unfolding n_def by (simp only: floor_less_iff)
  have "bitlen n \<le> e + 1075"
    using hi e by (simp add: bitlen_le_iff_power)
  moreover have "nat (e + 1075) - 1 = nat (e + 1074)"
    using e by simp
  then have "e + 1075 \<le> bitlen n"
    using lo e by (simp only: bitlen_ge_iff_power) simp
  ultimately have "bitlen n = e + 1075"
    by simp
  then show ?thesis
    using assms(3) by (simp add: ulp_exp_def n_def)
qed

lemma binary64_eval:
  assumes "2 powi e \<le> \<bar>x\<bar>" "\<bar>x\<bar> < 2 powi (e + 1)" "- 1022 \<le> e"
  shows "binary64 x = of_int (rne (x / 2 powi (e - 52))) * 2 powi (e - 52)"
  by (simp add: binary64_def Let_def ulp_exp_eval [OF assms])

lemma binary64_grid:
  assumes "k \<le> 0"
  shows "of_int (rne (x / 2 powi k)) * 2 powi k =
    (of_int (rne (x * 2 ^ nat (- k))) / 2 ^ nat (- k) :: rat)"
proof -
  have "(2 :: rat) powi k = 1 / 2 ^ nat (- k)"
    using assms by (simp add: power_int_def field_simps)
  then show ?thesis
    by simp
qed

text \<open>Rounding does not cross an integer, and leaves an integer as it is, below \<open>2^53\<close>.\<close>

lemma binary64_between:
  assumes "\<bar>x\<bar> < 2 ^ 53"
  shows "of_int \<lfloor>x\<rfloor> \<le> binary64 x" and "binary64 x \<le> of_int \<lceil>x\<rceil>"
proof -
  define k where "k = ulp_exp x"
  define N :: int where "N = 2 ^ nat (- k)"
  have k: "k \<le> 0"
    using ulp_exp_small [OF assms] by (simp add: k_def)
  have N: "0 < N"
    by (simp add: N_def)
  have b: "binary64 x = of_int (rne (x * of_int N)) / of_int N"
    using binary64_grid [OF k, of x] by (simp add: binary64_def k_def [symmetric] N_def)
  have "of_int (\<lfloor>x\<rfloor> * N) \<le> x * of_int N"
    using N by simp
  then have "\<lfloor>x\<rfloor> * N \<le> \<lfloor>x * of_int N\<rfloor>"
    by (simp only: le_floor_iff)
  also have "\<dots> \<le> rne (x * of_int N)"
    by (rule rne_floor)
  finally have "of_int (\<lfloor>x\<rfloor> * N) \<le> (of_int (rne (x * of_int N)) :: rat)"
    by (simp only: of_int_le_iff)
  then show "of_int \<lfloor>x\<rfloor> \<le> binary64 x"
    using N by (simp add: b pos_le_divide_eq)
  have "x * of_int N \<le> of_int (\<lceil>x\<rceil> * N)"
    using N by simp
  then have "\<lceil>x * of_int N\<rceil> \<le> \<lceil>x\<rceil> * N"
    by (simp only: ceiling_le_iff)
  then have "rne (x * of_int N) \<le> \<lceil>x\<rceil> * N"
    using rne_ceiling [of "x * of_int N"] by linarith
  then have "(of_int (rne (x * of_int N)) :: rat) \<le> of_int (\<lceil>x\<rceil> * N)"
    by (simp only: of_int_le_iff)
  then show "binary64 x \<le> of_int \<lceil>x\<rceil>"
    using N by (simp add: b pos_divide_le_eq)
qed

lemma binary64_of_int: "\<bar>n\<bar> < 2 ^ 53 \<Longrightarrow> binary64 (of_int n) = of_int n"
proof -
  assume "\<bar>n\<bar> < 2 ^ 53"
  then have "\<bar>of_int n :: rat\<bar> < 2 ^ 53"
    by (metis of_int_abs of_int_less_numeral_power_cancel_iff)
  from binary64_between [OF this] show ?thesis
    by simp
qed

lemma binary64_bounds:
  assumes "of_int lo \<le> x" "x \<le> of_int hi" "\<bar>x\<bar> < 2 ^ 53"
  shows "of_int lo \<le> binary64 x" "binary64 x \<le> of_int hi"
proof -
  have "lo \<le> \<lfloor>x\<rfloor>"
    using assms(1) by (simp only: le_floor_iff)
  then have "(of_int lo :: rat) \<le> of_int \<lfloor>x\<rfloor>"
    by (simp only: of_int_le_iff)
  then show "of_int lo \<le> binary64 x"
    using binary64_between(1) [OF assms(3)] by linarith
  have "\<lceil>x\<rceil> \<le> hi"
    using assms(2) by (simp only: ceiling_le_iff)
  then have "(of_int \<lceil>x\<rceil> :: rat) \<le> of_int hi"
    by (simp only: of_int_le_iff)
  then show "binary64 x \<le> of_int hi"
    using binary64_between(2) [OF assms(3)] by linarith
qed

lemma binary64_close:
  assumes "\<bar>x\<bar> < 2 ^ n"
  shows "\<bar>binary64 x - x\<bar> \<le> 2 powi (max (int n - 53) (- 1074)) / 2"
proof -
  define k where "k = ulp_exp x"
  have pos: "(0 :: rat) < 2 powi k"
    by simp
  have "binary64 x - x = (of_int (rne (x / 2 powi k)) - x / 2 powi k) * 2 powi k"
    by (simp add: binary64_def k_def [symmetric] algebra_simps)
  then have "\<bar>binary64 x - x\<bar> = \<bar>of_int (rne (x / 2 powi k)) - x / 2 powi k\<bar> * 2 powi k"
    by (simp add: abs_mult)
  also have "\<dots> \<le> 1 / 2 * 2 powi k"
    using rne_close [of "x / 2 powi k"] by (intro mult_right_mono) simp_all
  also have "(2 :: rat) powi k \<le> 2 powi (max (int n - 53) (- 1074))"
    using ulp_exp_small [OF assms] by (intro power_int_increasing) (simp_all add: k_def)
  finally show ?thesis
    by simp
qed

text \<open>The quotient of a number of milliseconds below \<open>2^53\<close> by the milliseconds of a
  day: its rounding is too small to reach the next integer, so \<^verbatim>\<open>Math.floor\<close> and
  \<^verbatim>\<open>Math.ceil\<close> of the binary64 quotient are the floor and the ceiling of the exact one.\<close>

lemma day_quotient_rounding:
  fixes ms :: int
  assumes "\<bar>ms\<bar> < 2 ^ 53"
  shows "\<lfloor>binary64 (of_int ms / 86400000)\<rfloor> = \<lfloor>(of_int ms :: rat) / 86400000\<rfloor>"
    and "\<lceil>binary64 (of_int ms / 86400000)\<rceil> = \<lceil>(of_int ms :: rat) / 86400000\<rceil>"
proof -
  define q :: rat where "q = of_int ms / of_int 86400000"
  define n where "n = ms div 86400000"
  define r where "r = ms mod 86400000"
  have n: "\<lfloor>q\<rfloor> = n"
    unfolding q_def n_def by (rule floor_divide_of_int_eq)
  have r: "0 \<le> r" "r < 86400000"
    by (simp_all add: r_def)
  have "ms = 86400000 * n + r"
    by (simp add: n_def r_def)
  then have "(of_int ms :: rat) = 86400000 * of_int n + of_int r"
    by (metis of_int_add of_int_mult of_int_numeral)
  then have q: "q = of_int n + of_int r / 86400000"
    by (simp add: q_def field_simps)
  have "\<bar>of_int ms :: rat\<bar> < 2 ^ 53"
    using assms by (metis of_int_abs of_int_less_numeral_power_cancel_iff)
  then have "\<bar>q\<bar> < 2 ^ 53 / 86400000"
    by (simp add: q_def divide_strict_right_mono)
  also have "\<dots> < (2 :: rat) ^ 27"
    by simp
  finally have small: "\<bar>q\<bar> < 2 ^ 27" .
  have "\<bar>binary64 q - q\<bar> \<le> 2 powi (max (int 27 - 53) (- 1074)) / 2"
    by (rule binary64_close [OF small])
  also have "\<dots> = 1 / 2 ^ 27"
    by (simp add: power_int_minus divide_simps)
  finally have close: "\<bar>binary64 q - q\<bar> \<le> 1 / 2 ^ 27" .
  have both: "\<lfloor>binary64 q\<rfloor> = \<lfloor>q\<rfloor> \<and> \<lceil>binary64 q\<rceil> = \<lceil>q\<rceil>"
  proof (cases "r = 0")
    case True
    then have qn: "q = of_int n"
      by (simp add: q)
    have "\<bar>q\<bar> < 2 ^ 53"
      using small by (rule less_trans) simp
    then have "\<bar>n\<bar> < 2 ^ 53"
      unfolding qn by (metis of_int_abs of_int_less_numeral_power_cancel_iff)
    then have "binary64 q = of_int n"
      unfolding qn by (rule binary64_of_int)
    then show ?thesis
      by (simp add: qn)
  next
    case False
    with r have "1 \<le> r" "r \<le> 86399999"
      by simp_all
    then have "(1 :: rat) \<le> of_int r" "(of_int r :: rat) \<le> 86399999"
      by simp_all
    then have lo: "of_int n + 1 / 86400000 \<le> q" and hi: "q \<le> of_int n + 1 - 1 / 86400000"
      by (simp_all add: q field_simps)
    have gap: "(1 :: rat) / 2 ^ 27 < 1 / 86400000"
      by simp
    have "of_int n < binary64 q" "binary64 q < of_int n + 1"
      using lo hi close gap unfolding abs_le_iff by linarith+
    then have "\<lfloor>binary64 q\<rfloor> = n" "\<lceil>binary64 q\<rceil> = n + 1"
      by (simp_all add: floor_unique ceiling_unique)
    moreover have "of_int n < q" "q < of_int n + 1"
      using lo hi by linarith+
    then have "\<lfloor>q\<rfloor> = n" "\<lceil>q\<rceil> = n + 1"
      by (simp_all add: floor_unique ceiling_unique)
    ultimately show ?thesis
      by simp
  qed
  then show "\<lfloor>binary64 (of_int ms / 86400000)\<rfloor> = \<lfloor>(of_int ms :: rat) / 86400000\<rfloor>"
    and "\<lceil>binary64 (of_int ms / 86400000)\<rceil> = \<lceil>(of_int ms :: rat) / 86400000\<rceil>"
    by (simp_all add: q_def)
qed

lemma number_Fin:
  assumes "\<bar>x\<bar> < 2 ^ 53"
  shows "number x = Fin (binary64 x)"
proof -
  have "of_int (- (2 ^ 53)) \<le> x" "x \<le> of_int (2 ^ 53)"
    using assms by (simp_all add: abs_less_iff)
  from binary64_bounds [OF this assms]
  have "- (2 ^ 53) \<le> binary64 x" "binary64 x \<le> 2 ^ 53"
    by simp_all
  moreover have "(2 :: rat) ^ 53 < 2 ^ 1024"
    by (rule power_strict_increasing) simp_all
  ultimately have "\<not> 2 ^ 1024 \<le> binary64 x" "\<not> binary64 x \<le> - (2 ^ 1024)"
    by linarith+
  then show ?thesis
    by (simp only: number_def Let_def if_False)
qed

lemma number_of_int: "\<bar>n\<bar> < 2 ^ 53 \<Longrightarrow> number (of_int n) = Fin (of_int n)"
proof -
  assume a: "\<bar>n\<bar> < 2 ^ 53"
  then have "\<bar>of_int n :: rat\<bar> < 2 ^ 53"
    by (metis of_int_abs of_int_less_numeral_power_cancel_iff)
  then show ?thesis
    by (simp only: number_Fin binary64_of_int [OF a])
qed

text \<open>The products of \<^verbatim>\<open>buildProgress\<close> for a ratio in \<open>[0, 1]\<close>.\<close>

lemma times_Fin:
  assumes "0 \<le> r" "r \<le> 1" "0 \<le> c" "c < 2 ^ 53"
  shows "number (r * of_int c) = Fin (binary64 (r * of_int c))"
    and "0 \<le> binary64 (r * of_int c)" and "binary64 (r * of_int c) \<le> of_int c"
proof -
  have c: "(0 :: rat) \<le> of_int c" "(of_int c :: rat) < 2 ^ 53"
    using assms(3,4) by (simp_all add: of_int_less_numeral_power_cancel_iff)
  have lo: "of_int 0 \<le> r * of_int c"
    using assms(1) c(1) by simp
  have hi: "r * of_int c \<le> of_int c"
    using mult_right_mono [OF assms(2) c(1)] by simp
  have small: "\<bar>r * of_int c\<bar> < 2 ^ 53"
    using lo hi c(2) by (simp add: abs_less_iff)
  show "number (r * of_int c) = Fin (binary64 (r * of_int c))"
    by (rule number_Fin [OF small])
  show "0 \<le> binary64 (r * of_int c)"
    using binary64_bounds(1) [OF lo hi small] by simp
  show "binary64 (r * of_int c) \<le> of_int c"
    by (rule binary64_bounds(2) [OF lo hi small])
qed

subsection \<open>Day arithmetic\<close>

lemma daysDiff_div: "daysDiff a b = (b - a) div 86400000"
proof -
  have "\<lfloor>(of_int (b - a) :: rat) / of_int 86400000\<rfloor> = (b - a) div 86400000"
    by (rule floor_divide_of_int_eq)
  then show ?thesis
    by (simp add: daysDiff_def)
qed

lemma daysLeft_div: "daysLeft a b = - ((a - b) div 86400000)"
proof -
  have "\<lceil>(of_int (b - a) :: rat) / of_int 86400000\<rceil> =
      - \<lfloor>(of_int (a - b) :: rat) / of_int 86400000\<rfloor>"
    by (simp add: ceiling_def minus_divide_left)
  also have "\<dots> = - ((a - b) div 86400000)"
    by (simp only: floor_divide_of_int_eq)
  finally show ?thesis
    by (simp add: daysLeft_def)
qed

lemma days_as_computed:
  assumes "\<bar>b - a\<bar> < 2 ^ 53"
  shows "daysDiff a b = \<lfloor>binary64 (of_int (b - a) / 86400000)\<rfloor>"
    and "daysLeft a b = \<lceil>binary64 (of_int (b - a) / 86400000)\<rceil>"
  using day_quotient_rounding [OF assms] by (simp_all add: daysDiff_def daysLeft_def)

lemma totalDays_nonneg: "start t \<le> target t \<Longrightarrow> 0 \<le> totalDays t"
  by (simp add: totalDays_def daysDiff_div pos_imp_zdiv_nonneg_iff)

text \<open>
  Claim C7. Whatever \<open>now\<close> is, before the start or after the target, the elapsed days of
  a window of \<open>totalDays \<ge> 0\<close> days (any window whose start is not after its target) lie in
  \<open>[0, totalDays]\<close>: they are the whole days from the start to \<open>now\<close>, rounded down and
  clamped to that interval.
\<close>

theorem elapsedDays_in_window:
  assumes "0 \<le> totalDays t"
  shows "0 \<le> elapsedDays t \<and> elapsedDays t \<le> totalDays t \<and>
         elapsedDays t = clamp ((now t - start t) div 86400000) 0 (totalDays t)"
  using assms
  by (auto simp: elapsedDays_def clamp_def daysDiff_div)

theorem elapsedDays_in_window_witness:
  "0 \<le> totalDays \<lparr>now = 8640000000, start = 0, target = 7776000000\<rparr>
   \<and> totalDays \<lparr>now = 8640000000, start = 0, target = 7776000000\<rparr> = 90
   \<and> elapsedDays \<lparr>now = 8640000000, start = 0, target = 7776000000\<rparr> = 90
   \<and> clamp ((8640000000 - 0) div 86400000) 0 90 = 90"
  using elapsedDays_in_window [of "\<lparr>now = 8640000000, start = 0, target = 7776000000\<rparr>"]
  by (simp add: totalDays_def daysDiff_div clamp_def)

lemma same_day:
  assumes "start t = start t'" "target t = target t'" "86400000 dvd (target t - start t)"
    and "(now t - start t) div 86400000 = (now t' - start t') div 86400000"
  shows "totalDays t = totalDays t'" "elapsedDays t = elapsedDays t'" "remaining t = remaining t'"
proof -
  show total: "totalDays t = totalDays t'"
    using assms(1,2) by (simp add: totalDays_def)
  show "elapsedDays t = elapsedDays t'"
    using assms(1,4) total by (simp add: elapsedDays_def daysDiff_div)
  obtain k where k: "target t - start t = 86400000 * k"
    using assms(3) by (auto simp: dvd_def)
  have "(now s - target t) div 86400000 = (now s - start t) div 86400000 - k" for s :: times
  proof -
    have "now s - target t = (now s - start t) + 86400000 * (- k)"
      using k by simp
    then have "(now s - target t) div 86400000 =
        ((now s - start t) + 86400000 * (- k)) div 86400000"
      by (simp only:)
    also have "\<dots> = (- k) + (now s - start t) div 86400000"
      by (rule div_mult_self2) simp
    finally show ?thesis
      by simp
  qed
  then show "remaining t = remaining t'"
    using assms(1,2,4) by (simp add: remaining_def daysLeft_div)
qed

subsection \<open>The progress bar\<close>

lemma glyphs_append: "glyphs (xs @ ys) = glyphs xs + glyphs ys"
  by (simp add: glyphs_def)

lemma glyphs_BAR_FILLED: "glyphs BAR_FILLED = 1"
  by (simp add: glyphs_def BAR_FILLED_def continuation_def)

lemma glyphs_BAR_EMPTY: "glyphs BAR_EMPTY = 1"
  by (simp add: glyphs_def BAR_EMPTY_def continuation_def)

lemma glyphs_replicate: "glyphs (concat (replicate n s)) = n * glyphs s"
  by (induction n) (simp_all add: glyphs_append, simp add: glyphs_def)

lemma is_decimal_digit: "n < 10 \<Longrightarrow> is_decimal (digit n)"
proof -
  assume "n < 10"
  then have "n \<in> {0, 1, 2, 3, 4, 5, 6, 7, 8, 9}"
    by auto
  then show ?thesis
    by (auto simp: is_decimal_def digit_def)
qed

lemma show_nat_digits: "show_nat n \<noteq> [] \<and> list_all is_decimal (show_nat n)"
proof (induction n rule: show_nat.induct)
  case (1 n)
  show ?case
  proof (cases "n < 10")
    case True
    then show ?thesis
      by (subst (1 2) show_nat.simps) (simp add: is_decimal_digit)
  next
    case False
    with 1 show ?thesis
      by (subst (1 2) show_nat.simps) (simp add: is_decimal_digit)
  qed
qed

lemma one_decimal_fixed1: "0 \<le> x \<Longrightarrow> one_decimal (fixed1 x)"
  using show_nat_digits [of "nat \<lfloor>\<bar>x\<bar> * 10 + 1 / 2\<rfloor> div 10"]
  by (simp add: fixed1_def one_decimal_def Let_def is_decimal_digit)

lemma read_nat_snoc: "read_nat (s @ [c]) = 10 * read_nat s + (of_char c - 48)"
  by (simp add: read_nat_def)

lemma of_char_digit: "n < 10 \<Longrightarrow> of_char (digit n) - 48 = n"
proof -
  have "\<forall>n \<in> {..<10}. (of_char (digit n) :: nat) - 48 = n"
    by (simp add: lessThan_nat_numeral lessThan_Suc digit_def)
  then show "n < 10 \<Longrightarrow> of_char (digit n) - 48 = n"
    by simp
qed

lemma read_show_nat: "read_nat (show_nat n) = n"
proof (induction n rule: show_nat.induct)
  case (1 n)
  show ?case
  proof (cases "n < 10")
    case True
    then show ?thesis
      by (subst show_nat.simps) (simp add: read_nat_def of_char_digit)
  next
    case False
    with 1 show ?thesis
      by (subst show_nat.simps) (simp add: read_nat_snoc of_char_digit)
  qed
qed

lemma no_point: "list_all is_decimal s \<Longrightarrow> filter (\<lambda>c. c \<noteq> CHR ''.'') s = s"
proof -
  have "\<not> is_decimal (CHR ''.'')"
    by (simp add: is_decimal_def)
  then show "list_all is_decimal s \<Longrightarrow> filter (\<lambda>c. c \<noteq> CHR ''.'') s = s"
    by (induction s) auto
qed

lemma read_fixed1: "0 \<le> x \<Longrightarrow> read_fixed1 (fixed1 x) = of_int (round (x * 10)) / 10"
proof -
  assume x: "0 \<le> x"
  define n where "n = nat \<lfloor>\<bar>x\<bar> * 10 + 1 / 2\<rfloor>"
  have fx: "fixed1 x = show_nat (n div 10) @ ''.'' @ [digit (n mod 10)]"
    using x by (simp add: fixed1_def n_def Let_def)
  have "is_decimal (digit (n mod 10))"
    by (rule is_decimal_digit) simp
  then have "list_all is_decimal (show_nat (n div 10) @ [digit (n mod 10)])"
    using show_nat_digits [of "n div 10"] by simp
  then have "filter (\<lambda>c. c \<noteq> CHR ''.'') (show_nat (n div 10) @ [digit (n mod 10)]) =
      show_nat (n div 10) @ [digit (n mod 10)]"
    by (rule no_point)
  then have "filter (\<lambda>c. c \<noteq> CHR ''.'') (fixed1 x) = show_nat (n div 10) @ [digit (n mod 10)]"
    by (simp add: fx)
  then have "read_nat (filter (\<lambda>c. c \<noteq> CHR ''.'') (fixed1 x)) = n"
    by (simp add: read_nat_snoc read_show_nat of_char_digit)
  moreover have "0 \<le> round (x * 10)"
    using round_mono [of 0 "x * 10"] x by simp
  then have "of_nat n = (of_int (round (x * 10)) :: rat)"
    using x by (simp add: n_def round_def)
  ultimately show ?thesis
    by (simp add: read_fixed1_def)
qed

lemma read_fixed1_close: "0 \<le> x \<Longrightarrow> \<bar>read_fixed1 (fixed1 x) - x\<bar> \<le> 1 / 20"
proof -
  assume x: "0 \<le> x"
  define y :: rat where "y = of_int (round (x * 10))"
  have "\<bar>y - x * 10\<bar> \<le> 1 / 2"
    unfolding y_def by (rule of_int_round_abs_le)
  then have "\<bar>y / 10 - x\<bar> \<le> 1 / 20"
    unfolding abs_le_iff by linarith
  then show ?thesis
    using x by (simp add: read_fixed1 y_def)
qed

lemma filled_bounds:
  fixes x :: rat
  assumes "0 \<le> x" "x \<le> 30"
  shows "0 \<le> round x" "round x \<le> 30"
proof -
  have "round (0 :: rat) \<le> round x"
    by (rule round_mono) (use assms in simp)
  then show "0 \<le> round x"
    by simp
  have "round x \<le> round (30 :: rat)"
    by (rule round_mono) (use assms in simp)
  then show "round x \<le> 30"
    by simp
qed

lemma progress_Fin:
  assumes "0 \<le> r" "r \<le> 1"
  shows "progress (Fin r) =
           Inr (concat (replicate (nat (round (binary64 (r * 30)))) BAR_FILLED) @
                concat (replicate (30 - nat (round (binary64 (r * 30)))) BAR_EMPTY),
                fixed1 (binary64 (r * 100)))"
proof -
  define f where "f = round (binary64 (r * 30))"
  have p: "number (r * 30) = Fin (binary64 (r * 30))"
    "0 \<le> binary64 (r * 30)" "binary64 (r * 30) \<le> 30"
    using times_Fin [OF assms, of 30] by simp_all
  have q: "js_times (Fin r) 100 = Fin (binary64 (r * 100))"
    using times_Fin(1) [OF assms, of 100] by simp
  have f: "0 \<le> f" "f \<le> 30"
    using filled_bounds [OF p(2,3)] by (simp_all add: f_def)
  have filled: "Math_round (js_times (Fin r) BAR_LENGTH) = Fin (of_int f)"
    by (simp add: BAR_LENGTH_def p(1) f_def round_def)
  have full: "repeat BAR_FILLED (Fin (of_int f)) = Inr (concat (replicate (nat f) BAR_FILLED))"
    using f by simp
  have "(30 :: rat) - of_int f = of_int (30 - f)"
    by simp
  moreover have "number (of_int (30 - f)) = Fin (of_int (30 - f))"
    by (rule number_of_int) (use f in simp)
  ultimately have "js_minus BAR_LENGTH (Fin (of_int f)) = Fin (of_int (30 - f))"
    by (simp only: BAR_LENGTH_def js_minus.simps)
  then have blank: "repeat BAR_EMPTY (js_minus BAR_LENGTH (Fin (of_int f))) =
      Inr (concat (replicate (30 - nat f) BAR_EMPTY))"
    using f by (simp add: nat_diff_distrib' del: of_int_diff)
  show ?thesis
    unfolding progress_def filled Let_def full blank q f_def [symmetric]
    by simp
qed

lemma ratio_cases:
  "Math_min 1 (Math_max 0 (js_div e t)) = NaN \<or>
   (\<exists>r. 0 \<le> r \<and> r \<le> 1 \<and> Math_min 1 (Math_max 0 (js_div e t)) = Fin r)"
  by (auto simp: js_div_def number_def Let_def)

lemma ratio_eq:
  assumes "t \<noteq> 0"
  shows "Math_min 1 (Math_max 0 (js_div e t)) = Fin (min 1 (max 0 (binary64 (of_int e / of_int t))))"
proof -
  have "(1 :: rat) \<le> 2 ^ 1024"
    by (rule one_le_power) simp
  then show ?thesis
    using assms by (auto simp: js_div_def number_def Let_def min_def max_def)
qed

lemma buildProgress_ratio:
  "t \<noteq> 0 \<Longrightarrow>
   buildProgress e t = progress (Fin (min 1 (max 0 (binary64 (of_int e / of_int t)))))"
  by (simp add: buildProgress_def ratio_eq)

lemma progress_NaN: "progress NaN = Inr ([], ''NaN'')"
  by (simp add: progress_def BAR_LENGTH_def)

lemma buildProgress_total: "\<exists>bar pct. buildProgress e t = Inr (bar, pct)"
  using ratio_cases [of e t]
  by (auto simp: buildProgress_def progress_NaN progress_Fin)

lemma buildProgress_cases:
  "buildProgress e t = Inr ([], ''NaN'') \<or>
   (\<exists>r. 0 \<le> r \<and> r \<le> 1 \<and>
      buildProgress e t =
        Inr (concat (replicate (nat (round (binary64 (r * 30)))) BAR_FILLED) @
             concat (replicate (30 - nat (round (binary64 (r * 30)))) BAR_EMPTY),
             fixed1 (binary64 (r * 100))))"
proof -
  consider "Math_min 1 (Math_max 0 (js_div e t)) = NaN"
    | r where "0 \<le> r" "r \<le> 1" "Math_min 1 (Math_max 0 (js_div e t)) = Fin r"
    using ratio_cases [of e t] by blast
  then show ?thesis
  proof cases
    case 1
    then show ?thesis
      by (simp add: buildProgress_def progress_NaN)
  next
    case 2
    then have "buildProgress e t =
        Inr (concat (replicate (nat (round (binary64 (r * 30)))) BAR_FILLED) @
             concat (replicate (30 - nat (round (binary64 (r * 30)))) BAR_EMPTY),
             fixed1 (binary64 (r * 100)))"
      by (simp add: buildProgress_def progress_Fin)
    with 2 show ?thesis
      by blast
  qed
qed

text \<open>The evaluation of \<^verbatim>\<open>buildProgress\<close> at given day counts, step by step, and the
  integer division behind \<open>round\<close> and \<open>fixed1\<close> of a fraction.\<close>

lemma buildProgress_value:
  assumes "t \<noteq> 0" and "binary64 (of_int e / of_int t) = r" and "0 \<le> r" and "r \<le> 1"
    and "binary64 (r * 30) = x" and "round x = f"
    and "binary64 (r * 100) = y" and "fixed1 y = p"
  shows "buildProgress e t =
     Inr (concat (replicate (nat f) BAR_FILLED) @ concat (replicate (30 - nat f) BAR_EMPTY), p)"
proof -
  have "min 1 (max 0 (binary64 (of_int e / of_int t))) = r"
    using assms(2,3,4) by simp
  then show ?thesis
    using assms(5-8) by (simp add: buildProgress_ratio [OF assms(1)] progress_Fin [OF assms(3,4)])
qed

lemma round_frac:
  assumes "0 < b"
  shows "round (of_int a / of_int b :: rat) = (2 * a + b) div (2 * b)"
proof -
  have "(of_int a / of_int b :: rat) + 1 / 2 = of_int (2 * a + b) / of_int (2 * b)"
    using assms by (simp add: field_simps)
  then show ?thesis
    unfolding round_def by (simp only: floor_divide_of_int_eq)
qed

lemma fixed1_frac:
  assumes "0 \<le> a" "0 < b"
  shows "fixed1 (of_int a / of_int b) =
     (let n = nat ((20 * a + b) div (2 * b)) in show_nat (n div 10) @ ''.'' @ [digit (n mod 10)])"
proof -
  have "\<bar>of_int a / of_int b :: rat\<bar> * 10 + 1 / 2 = of_int (20 * a + b) / of_int (2 * b)"
    using assms by (simp add: field_simps)
  then have "\<lfloor>\<bar>of_int a / of_int b :: rat\<bar> * 10 + 1 / 2\<rfloor> = (20 * a + b) div (2 * b)"
    by (simp only: floor_divide_of_int_eq)
  moreover have "\<not> (of_int a / of_int b :: rat) < 0"
    using assms by (simp add: not_less)
  ultimately show ?thesis
    by (simp only: fixed1_def Let_def if_False append_Nil)
qed

lemma round_numeral: "round (numeral a / numeral b :: rat) = (2 * numeral a + numeral b) div (2 * numeral b)"
  using round_frac [of "numeral b" "numeral a"] by simp

lemma fixed1_numeral:
  "fixed1 (numeral a / numeral b) =
     show_nat (nat ((20 * numeral a + numeral b) div (2 * numeral b)) div 10) @ ''.'' @
     [digit (nat ((20 * numeral a + numeral b) div (2 * numeral b)) mod 10)]"
  using fixed1_frac [of "numeral a" "numeral b"] by (simp add: Let_def)

lemma fixed1_nat: "fixed1 (of_nat n) = show_nat n @ ''.0''"
proof -
  have "(20 * int n + 1) div (2 * 1) = 10 * int n"
    by simp
  then have "nat ((20 * int n + 1) div (2 * 1)) = 10 * n"
    by simp
  moreover have "fixed1 (of_int (int n) / of_int 1) =
      (let k = nat ((20 * int n + 1) div (2 * 1)) in show_nat (k div 10) @ ''.'' @ [digit (k mod 10)])"
    by (rule fixed1_frac) simp_all
  ultimately have "fixed1 (of_int (int n) / of_int 1) = show_nat n @ ''.0''"
    by (simp add: Let_def digit_def)
  then show ?thesis
    by simp
qed

lemma fixed1_int_numeral: "fixed1 (numeral k) = show_nat (numeral k) @ ''.0''"
  using fixed1_nat [of "numeral k"] by simp

text \<open>Sample day counts. The ratios 3/20 and 23/80 are not binary64 numbers; the products
  of their roundings are rounded again, to \<open>4.5\<close> (where the exact product is below \<open>4.5\<close>)
  and to a number below \<open>28.75\<close> (which \<open>23/80 * 100\<close> is exactly).\<close>

lemma sample_3_20:
  "binary64 (of_int 3 / of_int 20) = 5404319552844595 / 36028797018963968"
  "binary64 (5404319552844595 / 36028797018963968 * 30) = 9 / 2"
  "binary64 (5404319552844595 / 36028797018963968 * 100) = 15"
proof -
  show "binary64 (of_int 3 / of_int 20) = 5404319552844595 / 36028797018963968"
    by (subst binary64_eval [where e = "- 3"]; simp add: rne_numeral rne_int_numeral)
  show "binary64 (5404319552844595 / 36028797018963968 * 30) = 9 / 2"
    by (subst binary64_eval [where e = "2"]; simp add: rne_numeral rne_int_numeral)
  show "binary64 (5404319552844595 / 36028797018963968 * 100) = 15"
    by (subst binary64_eval [where e = "3"]; simp add: rne_numeral rne_int_numeral)
qed

lemma buildProgress_3_20:
  "buildProgress 3 20 =
     Inr (concat (replicate 5 BAR_FILLED) @ concat (replicate 25 BAR_EMPTY), ''15.0'')"
proof -
  have "buildProgress 3 20 =
     Inr (concat (replicate (nat 5) BAR_FILLED) @ concat (replicate (30 - nat 5) BAR_EMPTY),
          ''15.0'')"
  proof (rule buildProgress_value [OF _ sample_3_20(1) _ _ sample_3_20(2) _ sample_3_20(3)])
    show "round (9 / 2 :: rat) = 5"
      by (simp add: round_numeral)
    show "fixed1 15 = ''15.0''"
      by (simp add: fixed1_int_numeral show_nat.simps digit_def)
  qed simp_all
  then show ?thesis
    by simp
qed

lemma sample_23_80:
  "binary64 (of_int 23 / of_int 80) = 2589569785738035 / 9007199254740992"
  "binary64 (2589569785738035 / 9007199254740992 * 30) = 69 / 8"
  "binary64 (2589569785738035 / 9007199254740992 * 100) = 8092405580431359 / 281474976710656"
proof -
  show "binary64 (of_int 23 / of_int 80) = 2589569785738035 / 9007199254740992"
    by (subst binary64_eval [where e = "- 2"]; simp add: rne_numeral rne_int_numeral)
  show "binary64 (2589569785738035 / 9007199254740992 * 30) = 69 / 8"
    by (subst binary64_eval [where e = "3"]; simp add: rne_numeral rne_int_numeral)
  show "binary64 (2589569785738035 / 9007199254740992 * 100) = 8092405580431359 / 281474976710656"
    by (subst binary64_eval [where e = "4"]; simp add: rne_numeral rne_int_numeral)
qed

lemma buildProgress_23_80:
  "buildProgress 23 80 =
     Inr (concat (replicate 9 BAR_FILLED) @ concat (replicate 21 BAR_EMPTY), ''28.7'')"
proof -
  have "buildProgress 23 80 =
     Inr (concat (replicate (nat 9) BAR_FILLED) @ concat (replicate (30 - nat 9) BAR_EMPTY),
          ''28.7'')"
  proof (rule buildProgress_value [OF _ sample_23_80(1) _ _ sample_23_80(2) _ sample_23_80(3)])
    show "round (69 / 8 :: rat) = 9"
      by (simp add: round_numeral)
    show "fixed1 (8092405580431359 / 281474976710656) = ''28.7''"
      by (simp add: fixed1_numeral show_nat.simps digit_def)
  qed simp_all
  then show ?thesis
    by simp
qed

lemma sample_88_90:
  "binary64 (of_int 88 / of_int 90) = 8807039271302303 / 9007199254740992"
  "binary64 (8807039271302303 / 9007199254740992 * 30) = 8256599316845909 / 281474976710656"
  "binary64 (8807039271302303 / 9007199254740992 * 100) = 1720124857676231 / 17592186044416"
proof -
  show "binary64 (of_int 88 / of_int 90) = 8807039271302303 / 9007199254740992"
    by (subst binary64_eval [where e = "- 1"]; simp add: rne_numeral rne_int_numeral)
  show "binary64 (8807039271302303 / 9007199254740992 * 30) = 8256599316845909 / 281474976710656"
    by (subst binary64_eval [where e = "4"]; simp add: rne_numeral rne_int_numeral)
  show "binary64 (8807039271302303 / 9007199254740992 * 100) = 1720124857676231 / 17592186044416"
    by (subst binary64_eval [where e = "6"]; simp add: rne_numeral rne_int_numeral)
qed

lemma buildProgress_88_90:
  "buildProgress 88 90 =
     Inr (concat (replicate 29 BAR_FILLED) @ concat (replicate 1 BAR_EMPTY), ''97.8'')"
proof -
  have "buildProgress 88 90 =
     Inr (concat (replicate (nat 29) BAR_FILLED) @ concat (replicate (30 - nat 29) BAR_EMPTY),
          ''97.8'')"
  proof (rule buildProgress_value [OF _ sample_88_90(1) _ _ sample_88_90(2) _ sample_88_90(3)])
    show "round (8256599316845909 / 281474976710656 :: rat) = 29"
      by (simp add: round_numeral)
    show "fixed1 (1720124857676231 / 17592186044416) = ''97.8''"
      by (simp add: fixed1_numeral show_nat.simps digit_def)
  qed simp_all
  then show ?thesis
    by simp
qed

lemma sample_89_90:
  "binary64 (of_int 89 / of_int 90) = 556694953938853 / 562949953421312"
  "binary64 (556694953938853 / 562949953421312 * 30) = 8350424309082795 / 281474976710656"
  "binary64 (556694953938853 / 562949953421312 * 100) = 3479343462117831 / 35184372088832"
proof -
  show "binary64 (of_int 89 / of_int 90) = 556694953938853 / 562949953421312"
    by (subst binary64_eval [where e = "- 1"]; simp add: rne_numeral rne_int_numeral)
  show "binary64 (556694953938853 / 562949953421312 * 30) = 8350424309082795 / 281474976710656"
    by (subst binary64_eval [where e = "4"]; simp add: rne_numeral rne_int_numeral)
  show "binary64 (556694953938853 / 562949953421312 * 100) = 3479343462117831 / 35184372088832"
    by (subst binary64_eval [where e = "6"]; simp add: rne_numeral rne_int_numeral)
qed

lemma buildProgress_89_90:
  "buildProgress 89 90 =
     Inr (concat (replicate 30 BAR_FILLED) @ concat (replicate 0 BAR_EMPTY), ''98.9'')"
proof -
  have "buildProgress 89 90 =
     Inr (concat (replicate (nat 30) BAR_FILLED) @ concat (replicate (30 - nat 30) BAR_EMPTY),
          ''98.9'')"
  proof (rule buildProgress_value [OF _ sample_89_90(1) _ _ sample_89_90(2) _ sample_89_90(3)])
    show "round (8350424309082795 / 281474976710656 :: rat) = 30"
      by (simp add: round_numeral)
    show "fixed1 (3479343462117831 / 35184372088832) = ''98.9''"
      by (simp add: fixed1_numeral show_nat.simps digit_def)
  qed simp_all
  then show ?thesis
    by simp
qed

lemma buildProgress_90_90:
  "buildProgress 90 90 =
     Inr (concat (replicate 30 BAR_FILLED) @ concat (replicate 0 BAR_EMPTY), ''100.0'')"
proof -
  have "binary64 (of_int 1) = of_int 1" "binary64 (of_int 30) = of_int 30"
    "binary64 (of_int 100) = of_int 100"
    by (rule binary64_of_int, simp)+
  then have b: "binary64 1 = 1" "binary64 30 = 30" "binary64 100 = 100"
    by simp_all
  have "fixed1 100 = ''100.0''"
    by (simp add: fixed1_int_numeral show_nat.simps digit_def)
  then show ?thesis
    using buildProgress_value [of 90 90 1 30 30 100 "''100.0''"] by (simp add: b)
qed

lemma round_stable:
  fixes x y :: rat
  assumes "\<bar>y - x\<bar> \<le> d" and "\<forall>k :: int. d < \<bar>x - (of_int k + 1 / 2)\<bar>"
  shows "round y = round x"
proof -
  define n where "n = round x"
  have n: "of_int n \<le> x + 1 / 2" "x + 1 / 2 < of_int n + 1"
    unfolding n_def round_def by linarith+
  have "d < \<bar>x - (of_int (n - 1) + 1 / 2)\<bar>" "d < \<bar>x - (of_int n + 1 / 2)\<bar>"
    using assms(2) by blast+
  then have "of_int n - 1 / 2 + d < x" "x < of_int n + 1 / 2 - d"
    using n by (simp_all add: abs_if split: if_splits)
  then have "of_int n \<le> y + 1 / 2" "y + 1 / 2 < of_int n + 1"
    using assms(1) unfolding abs_le_iff by linarith+
  then have "\<lfloor>y + 1 / 2\<rfloor> = n"
    by (simp add: floor_unique)
  then show ?thesis
    by (simp add: round_def n_def)
qed

lemma fixed1_round:
  assumes "0 \<le> x"
  shows "fixed1 x = show_nat (nat (round (x * 10)) div 10) @ ''.'' @ [digit (nat (round (x * 10)) mod 10)]"
  using assms by (simp add: fixed1_def Let_def round_def)

lemma fixed1_stable:
  assumes "0 \<le> x" "0 \<le> y" "\<bar>y - x\<bar> \<le> d"
    and "\<forall>k :: int. 10 * d < \<bar>x * 10 - (of_int k + 1 / 2)\<bar>"
  shows "fixed1 y = fixed1 x"
proof -
  have "\<bar>y * 10 - x * 10\<bar> = 10 * \<bar>y - x\<bar>"
    by (simp add: abs_if)
  then have "\<bar>y * 10 - x * 10\<bar> \<le> 10 * d"
    using assms(3) by simp
  then have "round (y * 10) = round (x * 10)"
    using assms(4) by (rule round_stable)
  then show ?thesis
    by (simp add: fixed1_round assms(1,2))
qed

lemma half_away:
  fixes n k :: int
  shows "1 / 2 \<le> \<bar>(of_int n :: rat) - (of_int k + 1 / 2)\<bar>"
proof (cases "k < n")
  case True
  then have "(of_int k :: rat) + 1 \<le> of_int n"
    by (metis of_int_1 of_int_add of_int_le_iff zless_imp_add1_zle)
  then show ?thesis
    by (simp add: abs_if)
next
  case False
  then have "(of_int n :: rat) \<le> of_int k"
    by simp
  then show ?thesis
    by (simp add: abs_if)
qed

text \<open>
  Claim C6. For every ratio in \<open>[0, 1]\<close> the bar is 30 glyphs: \<^verbatim>\<open>Math.round(ratio * 30)\<close>
  filled glyphs followed by the empty glyph for the rest, the product being the binary64
  product, within \<open>2^-49\<close> of the exact one, so that the count is \<open>round (ratio * 30)\<close> of the
  exact product unless that product is within \<open>2^-49\<close> of a tie. The percent string is
  \<^verbatim>\<open>ratio * 100\<close>, again the binary64 product, within \<open>2^-47\<close> of the exact one, written with
  exactly one decimal digit: digits, a point and one digit, denoting the tenth nearest to
  that product, which is the tenth nearest to the exact product unless the exact one is
  that close to a tie. The glyphs are U+1F7E9 and U+2B1C, and \<^verbatim>\<open>buildProgress\<close> renders in
  this way the quotient of its arguments, rounded to binary64 and clamped to \<open>[0, 1]\<close>.
\<close>

theorem progress_bar_thirty_glyphs:
  assumes "0 \<le> r" and "r \<le> 1"
  shows "progress (Fin r) =
           Inr (concat (replicate (nat (round (binary64 (r * 30)))) BAR_FILLED) @
                concat (replicate (30 - nat (round (binary64 (r * 30)))) BAR_EMPTY),
                fixed1 (binary64 (r * 100)))
         \<and> nat (round (binary64 (r * 30))) \<le> 30
         \<and> glyphs (concat (replicate (nat (round (binary64 (r * 30)))) BAR_FILLED) @
                   concat (replicate (30 - nat (round (binary64 (r * 30)))) BAR_EMPTY)) = 30
         \<and> \<bar>binary64 (r * 30) - r * 30\<bar> \<le> 1 / 2 ^ 49
         \<and> ((\<forall>k :: int. 1 / 2 ^ 49 < \<bar>r * 30 - (of_int k + 1 / 2)\<bar>) \<longrightarrow>
              round (binary64 (r * 30)) = round (r * 30))
         \<and> one_decimal (fixed1 (binary64 (r * 100)))
         \<and> read_fixed1 (fixed1 (binary64 (r * 100))) =
             of_int (round (binary64 (r * 100) * 10)) / 10
         \<and> \<bar>read_fixed1 (fixed1 (binary64 (r * 100))) - binary64 (r * 100)\<bar> \<le> 1 / 20
         \<and> \<bar>binary64 (r * 100) - r * 100\<bar> \<le> 1 / 2 ^ 47
         \<and> ((\<forall>k :: int. 10 / 2 ^ 47 < \<bar>r * 1000 - (of_int k + 1 / 2)\<bar>) \<longrightarrow>
              fixed1 (binary64 (r * 100)) = fixed1 (r * 100))
         \<and> BAR_FILLED = [CHR 0xF0, CHR 0x9F, CHR 0x9F, CHR 0xA9] \<and> glyphs BAR_FILLED = 1
         \<and> BAR_EMPTY = [CHR 0xE2, CHR 0xAC, CHR 0x9C] \<and> glyphs BAR_EMPTY = 1
         \<and> (t \<noteq> 0 \<longrightarrow>
              buildProgress e t =
                progress (Fin (min 1 (max 0 (binary64 (of_int e / of_int t))))))"
proof -
  have p: "0 \<le> binary64 (r * 30)" "binary64 (r * 30) \<le> 30"
    using times_Fin(2,3) [OF assms, of 30] by simp_all
  have q: "0 \<le> binary64 (r * 100)"
    using times_Fin(2) [OF assms, of 100] by simp
  have c30: "\<bar>binary64 (r * 30) - r * 30\<bar> \<le> 1 / 2 ^ 49"
  proof -
    have "\<bar>r * 30\<bar> < 2 ^ 5"
      using assms by (simp add: abs_less_iff)
    from binary64_close [OF this] show ?thesis
      by (simp add: power_int_minus divide_simps)
  qed
  have c100: "\<bar>binary64 (r * 100) - r * 100\<bar> \<le> 1 / 2 ^ 47"
  proof -
    have "\<bar>r * 100\<bar> < 2 ^ 7"
      using assms by (simp add: abs_less_iff)
    from binary64_close [OF this] show ?thesis
      by (simp add: power_int_minus divide_simps)
  qed
  have "nat (round (binary64 (r * 30))) \<le> 30"
    using filled_bounds [OF p] by simp
  moreover from this have "glyphs (concat (replicate (nat (round (binary64 (r * 30)))) BAR_FILLED) @
      concat (replicate (30 - nat (round (binary64 (r * 30)))) BAR_EMPTY)) = 30"
    by (simp add: glyphs_append glyphs_replicate glyphs_BAR_FILLED glyphs_BAR_EMPTY)
  moreover note c30
  moreover have "(\<forall>k :: int. 1 / 2 ^ 49 < \<bar>r * 30 - (of_int k + 1 / 2)\<bar>) \<longrightarrow>
      round (binary64 (r * 30)) = round (r * 30)"
    using round_stable [OF c30] by blast
  moreover have "one_decimal (fixed1 (binary64 (r * 100)))"
    using q by (rule one_decimal_fixed1)
  moreover have "read_fixed1 (fixed1 (binary64 (r * 100))) =
      of_int (round (binary64 (r * 100) * 10)) / 10"
    using q by (rule read_fixed1)
  moreover have "\<bar>read_fixed1 (fixed1 (binary64 (r * 100))) - binary64 (r * 100)\<bar> \<le> 1 / 20"
    using q by (rule read_fixed1_close)
  moreover note c100
  moreover have "(\<forall>k :: int. 10 / 2 ^ 47 < \<bar>r * 1000 - (of_int k + 1 / 2)\<bar>) \<longrightarrow>
      fixed1 (binary64 (r * 100)) = fixed1 (r * 100)"
  proof
    have eq: "r * 100 * 10 = r * 1000" "10 * (1 / 2 ^ 47) = (10 :: rat) / 2 ^ 47"
      by simp_all
    assume "\<forall>k :: int. 10 / 2 ^ 47 < \<bar>r * 1000 - (of_int k + 1 / 2)\<bar>"
    then have "\<forall>k :: int. 10 * (1 / 2 ^ 47) < \<bar>r * 100 * 10 - (of_int k + 1 / 2)\<bar>"
      by (simp only: eq simp_thms)
    moreover have "0 \<le> r * 100"
      using assms by simp
    ultimately show "fixed1 (binary64 (r * 100)) = fixed1 (r * 100)"
      using q c100 by (intro fixed1_stable)
  qed
  moreover have "t \<noteq> 0 \<longrightarrow>
      buildProgress e t = progress (Fin (min 1 (max 0 (binary64 (of_int e / of_int t)))))"
    by (simp add: buildProgress_ratio)
  ultimately show ?thesis
    using progress_Fin [OF assms]
    by (simp only: BAR_FILLED_def BAR_EMPTY_def glyphs_BAR_FILLED [unfolded BAR_FILLED_def]
        glyphs_BAR_EMPTY [unfolded BAR_EMPTY_def] simp_thms)
qed

theorem progress_bar_thirty_glyphs_witness:
  "progress (Fin (1 / 2)) =
     Inr (concat (replicate 15 BAR_FILLED) @ concat (replicate 15 BAR_EMPTY), ''50.0'')
   \<and> glyphs (concat (replicate 15 BAR_FILLED) @ concat (replicate 15 BAR_EMPTY)) = 30
   \<and> one_decimal ''50.0''
   \<and> read_fixed1 ''50.0'' = 50
   \<and> progress (Fin (5404319552844595 / 36028797018963968)) =
     Inr (concat (replicate 5 BAR_FILLED) @ concat (replicate 25 BAR_EMPTY), ''15.0'')
   \<and> round (5404319552844595 / 36028797018963968 * 30 :: rat) = 4
   \<and> buildProgress 23 80 = progress (Fin (2589569785738035 / 9007199254740992))
   \<and> progress (Fin (2589569785738035 / 9007199254740992)) =
     Inr (concat (replicate 9 BAR_FILLED) @ concat (replicate 21 BAR_EMPTY), ''28.7'')"
proof -
  have h: "\<forall>k :: int. 1 / 2 ^ 49 < \<bar>(1 / 2 :: rat) * 30 - (of_int k + 1 / 2)\<bar>"
    "\<forall>k :: int. 10 / 2 ^ 47 < \<bar>(1 / 2 :: rat) * 1000 - (of_int k + 1 / 2)\<bar>"
  proof -
    have "(1 :: rat) / 2 ^ 49 < 1 / 2" "(10 :: rat) / 2 ^ 47 < 1 / 2"
      by simp_all
    moreover have "1 / 2 \<le> \<bar>(1 / 2 :: rat) * 30 - (of_int k + 1 / 2)\<bar>"
      "1 / 2 \<le> \<bar>(1 / 2 :: rat) * 1000 - (of_int k + 1 / 2)\<bar>" for k :: int
      using half_away [of 15 k] half_away [of 500 k] by simp_all
    ultimately show "\<forall>k :: int. 1 / 2 ^ 49 < \<bar>(1 / 2 :: rat) * 30 - (of_int k + 1 / 2)\<bar>"
      "\<forall>k :: int. 10 / 2 ^ 47 < \<bar>(1 / 2 :: rat) * 1000 - (of_int k + 1 / 2)\<bar>"
      by (meson less_le_trans)+
  qed
  have v: "round (15 :: rat) = 15" "fixed1 50 = ''50.0''" "round (9 / 2 :: rat) = 5"
    "fixed1 15 = ''15.0''" "round (15 * 10 :: rat) = 150" "round (69 / 8 :: rat) = 9"
    "fixed1 (8092405580431359 / 281474976710656) = ''28.7''"
    "round (5404319552844595 / 36028797018963968 * 30 :: rat) = 4"
    "min 1 (max 0 (2589569785738035 / 9007199254740992 :: rat)) =
       2589569785738035 / 9007199254740992"
    by (simp_all add: round_numeral fixed1_int_numeral fixed1_numeral show_nat.simps digit_def)
  have a: "progress (Fin (1 / 2)) =
      Inr (concat (replicate 15 BAR_FILLED) @ concat (replicate 15 BAR_EMPTY), ''50.0'')
    \<and> glyphs (concat (replicate 15 BAR_FILLED) @ concat (replicate 15 BAR_EMPTY)) = 30
    \<and> one_decimal ''50.0'' \<and> read_fixed1 ''50.0'' = 50"
  proof -
    have r: "(0 :: rat) \<le> 1 / 2" "(1 / 2 :: rat) \<le> 1"
      by simp_all
    note t = progress_bar_thirty_glyphs [OF r]
    have "round (binary64 (1 / 2 * 30)) = round (1 / 2 * 30 :: rat)"
      "fixed1 (binary64 (1 / 2 * 100)) = fixed1 (1 / 2 * 100)"
      using t h by blast+
    then have e: "round (binary64 (1 / 2 * 30)) = 15" "fixed1 (binary64 (1 / 2 * 100)) = ''50.0''"
      by (simp_all add: v)
    show ?thesis
      using t unfolding e by (simp add: one_decimal_def is_decimal_def read_fixed1_def read_nat_def)
  qed
  have b: "progress (Fin (5404319552844595 / 36028797018963968)) =
      Inr (concat (replicate 5 BAR_FILLED) @ concat (replicate 25 BAR_EMPTY), ''15.0'')"
  proof -
    have r: "(0 :: rat) \<le> 5404319552844595 / 36028797018963968"
      "(5404319552844595 / 36028797018963968 :: rat) \<le> 1"
      by simp_all
    show ?thesis
      using progress_bar_thirty_glyphs [OF r, unfolded sample_3_20 v] by simp
  qed
  have c: "buildProgress 23 80 = progress (Fin (2589569785738035 / 9007199254740992))
    \<and> progress (Fin (2589569785738035 / 9007199254740992)) =
      Inr (concat (replicate 9 BAR_FILLED) @ concat (replicate 21 BAR_EMPTY), ''28.7'')"
  proof -
    have r: "(0 :: rat) \<le> 2589569785738035 / 9007199254740992"
      "(2589569785738035 / 9007199254740992 :: rat) \<le> 1"
      by simp_all
    show ?thesis
      using progress_bar_thirty_glyphs [OF r, of 80 23, unfolded sample_23_80 v] by simp
  qed
  show ?thesis
    using a b c v(8) by blast
qed

lemma buildProgress_eq: "buildProgress (elapsedDays t) (totalDays t) = Inr (bar_of t, percent t)"
  using buildProgress_total [of "elapsedDays t" "totalDays t"]
  by (auto simp: bar_of_def percent_def)

lemma bar_of_cases:
  "bar_of t = [] \<or> (\<exists>rest. bar_of t = BAR_FILLED @ rest) \<or> (\<exists>rest. bar_of t = BAR_EMPTY @ rest)"
proof -
  consider "buildProgress (elapsedDays t) (totalDays t) = Inr ([], ''NaN'')"
    | r where "0 \<le> r" "r \<le> 1" "buildProgress (elapsedDays t) (totalDays t) =
        Inr (concat (replicate (nat (round (binary64 (r * 30)))) BAR_FILLED) @
             concat (replicate (30 - nat (round (binary64 (r * 30)))) BAR_EMPTY), fixed1 (binary64 (r * 100)))"
    using buildProgress_cases [of "elapsedDays t" "totalDays t"] by blast
  then show ?thesis
  proof cases
    case 1
    then show ?thesis
      by (simp add: bar_of_def)
  next
    case 2
    show ?thesis
    proof (cases "nat (round (binary64 (r * 30)))")
      case 0
      have "replicate 30 BAR_EMPTY = BAR_EMPTY # replicate 29 BAR_EMPTY"
        by (simp add: numeral_eq_Suc)
      with 0 2(3) show ?thesis
        by (simp add: bar_of_def)
    next
      case (Suc n)
      with 2(3) show ?thesis
        by (simp add: bar_of_def)
    qed
  qed
qed

subsection \<open>Digests\<close>

lemma is_hex_digit: "n < 16 \<Longrightarrow> is_hex (digit n)"
  unfolding is_hex_def digit_def by (rule nth_mem) simp

lemma hex_is_hex: "list_all is_hex (hex w)"
proof -
  have "unat (take_bit 4 x) < 16" for x :: "'a word"
    using take_bit_nat_less_exp [of 4 "unat x"] by (simp add: unsigned_take_bit_eq)
  then show ?thesis
    by (simp add: hex_def list_all_iff is_hex_digit)
qed

lemma nibble: "unat (take_bit 4 (drop_bit (4 * i) w)) = unat w div 16 ^ i mod 16"
proof -
  have "unat (take_bit 4 (drop_bit (4 * i) w)) = take_bit 4 (drop_bit (4 * i) (unat w))"
    by (simp only: unsigned_take_bit_eq unat_drop_bit_eq)
  also have "\<dots> = unat w div 2 ^ (4 * i) mod 2 ^ 4"
    by (simp only: take_bit_eq_mod drop_bit_eq_div)
  also have "(2 :: nat) ^ (4 * i) = 16 ^ i"
    by (simp add: power_mult)
  finally show ?thesis
    by simp
qed

lemma hex_value_digit: "n < 16 \<Longrightarrow> hex_value (digit n) = Some n"
proof -
  have "\<forall>n \<in> {..<16}. hex_value (digit n) = Some n"
    by (simp add: lessThan_nat_numeral lessThan_Suc hex_value_def digit_def)
  then show "n < 16 \<Longrightarrow> hex_value (digit n) = Some n"
    by simp
qed

lemma parse_digits_map:
  "\<forall>d\<in>set ds. d < 16 \<Longrightarrow>
   parse_digits acc (map digit ds) = foldl (\<lambda>a d. 16 * a + d) acc ds"
  by (induction ds arbitrary: acc) (simp_all add: hex_value_digit)

lemma horner:
  fixes m acc :: nat
  shows "foldl (\<lambda>a d. 16 * a + d) acc (map (\<lambda>k. m div 16 ^ k mod 16) (rev [0..<j])) =
    acc * 16 ^ j + m mod 16 ^ j"
proof (induction j arbitrary: acc)
  case 0
  show ?case by simp
next
  case (Suc j)
  have "foldl (\<lambda>a d. 16 * a + d) acc (map (\<lambda>k. m div 16 ^ k mod 16) (rev [0..<Suc j])) =
      foldl (\<lambda>a d. 16 * a + d) (16 * acc + m div 16 ^ j mod 16)
        (map (\<lambda>k. m div 16 ^ k mod 16) (rev [0..<j]))"
    by simp
  also have "\<dots> = (16 * acc + m div 16 ^ j mod 16) * 16 ^ j + m mod 16 ^ j"
    by (rule Suc)
  also have "\<dots> = acc * 16 ^ Suc j + (16 ^ j * (m div 16 ^ j mod 16) + m mod 16 ^ j)"
    by (simp add: algebra_simps)
  also have "16 ^ j * (m div 16 ^ j mod 16) + m mod 16 ^ j = m mod (16 ^ j * 16)"
    by (rule mod_mult2_eq [symmetric])
  finally show ?case
    by (simp add: mult.commute)
qed

lemma parseInt16_digits:
  assumes "ds \<noteq> []" "\<forall>d\<in>set ds. d < 16"
  shows "parseInt16 (map digit ds) = Some (foldl (\<lambda>a d. 16 * a + d) 0 ds)"
proof -
  obtain d ds' where ds: "ds = d # ds'"
    using assms(1) by (cases ds) auto
  with assms(2) have "hex_value (digit d) = Some d"
    by (simp add: hex_value_digit)
  then show ?thesis
    using parse_digits_map [OF assms(2), of 0] by (simp add: parseInt16_def ds)
qed

lemma take8_hex:
  fixes w :: "'a::len word"
  assumes "8 \<le> LENGTH('a) div 4"
  shows "take 8 (hex w) =
    map digit (map (\<lambda>k. (unat w div 16 ^ (LENGTH('a) div 4 - 8)) div 16 ^ k mod 16) (rev [0..<8]))"
proof -
  define N where "N = LENGTH('a) div 4"
  have "take 8 (rev [0..<N]) = rev [N - 8..<N]"
    by (simp add: take_rev)
  also have "[N - 8..<N] = map (\<lambda>k. k + (N - 8)) [0..<8]"
    using map_add_upt [of "N - 8" 8] assms by (simp add: N_def)
  finally have "take 8 (rev [0..<N]) = map (\<lambda>k. k + (N - 8)) (rev [0..<8])"
    by (simp add: rev_map)
  then have "take 8 (hex w) =
      map (\<lambda>i. digit (unat w div 16 ^ i mod 16)) (map (\<lambda>k. k + (N - 8)) (rev [0..<8]))"
    by (simp add: hex_def nibble take_map N_def)
  also have "\<dots> = map digit (map (\<lambda>k. (unat w div 16 ^ (N - 8)) div 16 ^ k mod 16) (rev [0..<8]))"
  proof -
    have "a div b div c = a div c div b" for a b c :: nat
      by (metis div_mult2_eq mult.commute)
    then show ?thesis
      by (simp add: power_add div_mult2_eq del: upt.simps rev.simps)
  qed
  finally show ?thesis
    by (simp add: N_def)
qed

lemma pick_index_hex:
  fixes w :: "'a::len word"
  assumes "LENGTH('a) = 4 * N" "8 \<le> N"
  shows "pick_index (hex w) n = Some (unat (drop_bit (LENGTH('a) - 32) w) mod n)"
proof -
  define m where "m = unat w div 16 ^ (N - 8)"
  have N: "LENGTH('a) div 4 = N"
    using assms by simp
  have "unat w < 2 ^ LENGTH('a)"
    by (rule unsigned_less)
  also have "(2 :: nat) ^ LENGTH('a) = 16 ^ (N - 8) * 16 ^ 8"
  proof -
    have "N = (N - 8) + 8"
      using assms by simp
    then have "(16 :: nat) ^ N = 16 ^ (N - 8) * 16 ^ 8"
      by (metis power_add)
    then show ?thesis
      using assms by (simp add: power_mult)
  qed
  finally have "m < 16 ^ 8"
    by (simp add: m_def less_mult_imp_div_less mult.commute)
  have "LENGTH('a) - 32 = 4 * (N - 8)"
    using assms by simp
  then have pow: "(2 :: nat) ^ (LENGTH('a) - 32) = 16 ^ (N - 8)"
    by (simp add: power_mult)
  have "unat (drop_bit (LENGTH('a) - 32) w) = drop_bit (LENGTH('a) - 32) (unat w)"
    by (rule unat_drop_bit_eq)
  also have "\<dots> = unat w div 2 ^ (LENGTH('a) - 32)"
    by (rule drop_bit_eq_div)
  finally have top: "unat (drop_bit (LENGTH('a) - 32) w) = m"
    by (simp only: pow m_def)
  have "take 8 (hex w) = map digit (map (\<lambda>k. m div 16 ^ k mod 16) (rev [0..<8]))"
    using take8_hex [of w] assms by (simp add: N m_def)
  moreover have "parseInt16 (map digit (map (\<lambda>k. m div 16 ^ k mod 16) (rev [0..<8]))) =
      Some (foldl (\<lambda>a d. 16 * a + d) 0 (map (\<lambda>k. m div 16 ^ k mod 16) (rev [0..<8])))"
    by (rule parseInt16_digits) auto
  moreover have "foldl (\<lambda>a d. 16 * a + d) 0 (map (\<lambda>k. m div 16 ^ k mod 16) (rev [0..<8])) = m"
    using horner [of 0 m 8] \<open>m < 16 ^ 8\<close> by simp
  ultimately show ?thesis
    by (simp add: pick_index_def top)
qed

lemma pick_index_md5:
  "pick_index (hex (w :: 128 word)) n = Some (unat (drop_bit 96 w) mod n)"
  using pick_index_hex [where w = w and N = 32 and n = n] by simp

lemma pick_index_sha1:
  "pick_index (hex (w :: 160 word)) n = Some (unat (drop_bit 128 w) mod n)"
  using pick_index_hex [where w = w and N = 40 and n = n] by simp

subsection \<open>The nudge and the composed text\<close>

lemma lengths: "length generic = 5" "length milestoneFlavor = 5"
  by (simp_all add: generic_def milestoneFlavor_def)

lemma element_generic:
  "element generic (pick_index (hex (md5 h s)) (length generic)) =
     generic ! (unat (drop_bit 96 (md5 h s)) mod length generic)"
  by (simp add: pick_index_md5 element_def lengths)

lemma element_milestone:
  "element milestoneFlavor (pick_index (hex (sha1 h s)) (length milestoneFlavor)) =
     milestoneFlavor ! (unat (drop_bit 128 (sha1 h s)) mod length milestoneFlavor)"
  by (simp add: pick_index_sha1 element_def lengths)

lemma pickNudge_lines_eq:
  "pickNudge_lines h d pct m =
     (if 1 < d then
        [days_left_line d pct, prompt_tag @ chosen_generic h d pct] @
        (if m then [milestone_tag @ chosen_milestone h d pct] else [])
      else if d = 1 then
        [last_call_line pct, prompt_tag @ chosen_generic h d pct] @
        (if m then [milestone_tag @ chosen_milestone h d pct] else [])
      else if d = 0 then [final_day_line pct, retro_line]
      else [])"
  unfolding pickNudge_lines_def Let_def element_generic element_milestone
    chosen_generic_def chosen_milestone_def
  by simp

lemma split_lines_plain: "plain s \<Longrightarrow> split_lines s = [s]"
  by (induction s) (auto simp: plain_def)

lemma split_lines_append:
  "plain s \<Longrightarrow> split_lines (s @ newline @ r) = s # split_lines r"
  by (induction s) (auto simp: plain_def newline_def)

lemma split_join:
  "ls \<noteq> [] \<Longrightarrow> \<forall>l\<in>set ls. plain l \<Longrightarrow> split_lines (join newline ls) = ls"
proof (induction ls)
  case Nil
  then show ?case by simp
next
  case (Cons x ls)
  show ?case
  proof (cases ls)
    case Nil
    with Cons.prems show ?thesis
      by (simp add: split_lines_plain)
  next
    case (Cons y ys)
    with Cons.IH Cons.prems show ?thesis
      by (simp add: split_lines_append)
  qed
qed

lemma plain_append: "plain (a @ b) \<longleftrightarrow> plain a \<and> plain b"
  by (auto simp: plain_def)

lemma plain_Nil: "plain []"
  by (simp add: plain_def)

lemma plain_Cons: "plain (c # s) \<longleftrightarrow> c \<noteq> CHR 0x0A \<and> plain s"
  by (auto simp: plain_def)

lemma plain_decimal: "list_all is_decimal s \<Longrightarrow> plain s"
proof -
  have "\<not> is_decimal (CHR 0x0A)"
    by (simp add: is_decimal_def)
  then show "list_all is_decimal s \<Longrightarrow> plain s"
    by (auto simp: plain_def list_all_iff)
qed

lemma plain_show_nat: "plain (show_nat n)"
  using show_nat_digits [of n] by (simp add: plain_decimal)

lemma plain_show_int: "plain (show_int i)"
  by (simp add: show_int_def plain_Cons plain_show_nat)

lemma plain_digit: "n < 16 \<Longrightarrow> plain [digit n]"
proof -
  have "\<not> is_hex (CHR 0x0A)"
    by (simp add: is_hex_def)
  then show "n < 16 \<Longrightarrow> plain [digit n]"
    using is_hex_digit [of n] by (auto simp: plain_def)
qed

lemma plain_fixed1: "plain (fixed1 x)"
proof -
  have "plain [digit (n mod 10)]" for n
    by (rule plain_digit) simp
  then show ?thesis
    by (simp add: fixed1_def Let_def plain_append plain_show_nat plain_Cons plain_Nil)
qed

lemma plain_concat_replicate: "plain s \<Longrightarrow> plain (concat (replicate n s))"
  by (induction n) (simp_all add: plain_append, simp add: plain_def)

lemma plain_glyph: "plain BAR_FILLED" "plain BAR_EMPTY"
  by (simp_all add: plain_def BAR_FILLED_def BAR_EMPTY_def)

lemma plain_progress: "plain (bar_of t) \<and> plain (percent t)"
proof -
  consider "buildProgress (elapsedDays t) (totalDays t) = Inr ([], ''NaN'')"
    | r where "buildProgress (elapsedDays t) (totalDays t) =
        Inr (concat (replicate (nat (round (binary64 (r * 30)))) BAR_FILLED) @
             concat (replicate (30 - nat (round (binary64 (r * 30)))) BAR_EMPTY), fixed1 (binary64 (r * 100)))"
    using buildProgress_cases [of "elapsedDays t" "totalDays t"] by blast
  then show ?thesis
  proof cases
    case 1
    then show ?thesis
      by (simp add: bar_of_def percent_def plain_Cons plain_Nil)
  next
    case 2
    then show ?thesis
      by (simp add: bar_of_def percent_def plain_append plain_concat_replicate plain_glyph
          plain_fixed1)
  qed
qed

lemma plain_generic: "\<forall>s\<in>set generic. plain s"
  by (simp add: generic_def plain_Cons plain_Nil)

lemma plain_milestoneFlavor: "\<forall>s\<in>set milestoneFlavor. plain s"
  by (simp add: milestoneFlavor_def plain_Cons plain_Nil)

lemma plain_chosen: "plain (chosen_generic h d pct)" "plain (chosen_milestone h d pct)"
  using plain_generic plain_milestoneFlavor
  by (simp_all add: chosen_generic_def chosen_milestone_def lengths)

lemma plain_templates:
  "plain pct \<Longrightarrow> plain (days_left_line d pct)"
  "plain pct \<Longrightarrow> plain (last_call_line pct)"
  "plain pct \<Longrightarrow> plain (final_day_line pct)"
  "plain prompt_tag" "plain milestone_tag" "plain retro_line"
  by (simp_all add: days_left_line_def last_call_line_def final_day_line_def prompt_tag_def
      milestone_tag_def retro_line_def plain_append plain_Cons plain_Nil plain_show_int)

lemma plain_lines: "plain pct \<Longrightarrow> \<forall>l\<in>set (pickNudge_lines h d pct m). plain l"
  by (auto simp: pickNudge_lines_eq plain_templates plain_chosen plain_append)

lemma plain_header: "plain header"
  by (simp add: header_def EVENT_NAME_def plain_Cons plain_Nil)

lemma plain_progressLine: "plain (progressLine (bar_of t) (percent t))"
  using plain_progress [of t] by (simp add: progressLine_def plain_append plain_Cons plain_Nil)

lemma compose_Elapsed: "remaining t < 0 \<Longrightarrow> compose h t = Elapsed"
  by (simp add: compose_def)

lemma compose_Text: "0 \<le> remaining t \<Longrightarrow> \<exists>core. compose h t = Text core"
  using buildProgress_total [of "elapsedDays t" "totalDays t"]
  by (auto simp: compose_def Let_def)

lemma compose_not_Thrown: "compose h t \<noteq> Thrown x"
  using compose_Elapsed [of t h] compose_Text [of t h]
  by (cases "remaining t < 0") auto

lemma compose_eq:
  "0 \<le> remaining t \<Longrightarrow>
   compose h t =
     Text (join newline
       (header # progressLine (bar_of t) (percent t) #
        pickNudge_lines h (remaining t) (percent t) (remaining t \<in> MILESTONES)))"
proof -
  assume a: "0 \<le> remaining t"
  then obtain l ls where
    "pickNudge_lines h (remaining t) (percent t) (remaining t \<in> MILESTONES) = l # ls"
    by (cases "pickNudge_lines h (remaining t) (percent t) (remaining t \<in> MILESTONES)")
      (auto simp: pickNudge_lines_eq split: if_splits)
  with a show ?thesis
    by (simp add: compose_def buildProgress_eq pickNudge_def)
qed

lemma compose_nudge:
  "0 \<le> remaining t \<Longrightarrow>
   compose h t =
     Text (header @ newline @ progressLine (bar_of t) (percent t) @ newline @
           pickNudge h (remaining t) (percent t) (remaining t \<in> MILESTONES))"
  by (simp add: compose_def buildProgress_eq)

lemma compose_depends:
  assumes "totalDays t = totalDays t'" "elapsedDays t = elapsedDays t'" "remaining t = remaining t'"
  shows "compose h t = compose h t'"
  unfolding compose_def assms ..

lemma message_lines_eq:
  assumes "0 \<le> remaining t"
  shows "message_lines h t =
     header # progressLine (bar_of t) (percent t) #
     pickNudge_lines h (remaining t) (percent t) (remaining t \<in> MILESTONES)"
proof -
  have "\<forall>l\<in>set (header # progressLine (bar_of t) (percent t) #
        pickNudge_lines h (remaining t) (percent t) (remaining t \<in> MILESTONES)). plain l"
    using plain_progress [of t] plain_lines [of "percent t" h "remaining t" "remaining t \<in> MILESTONES"]
      plain_header plain_progressLine [of t] by simp
  then show ?thesis
    unfolding message_lines_def compose_eq [OF assms]
    by (simp only: composed.case) (rule split_join, simp_all)
qed

lemma message_lines_Elapsed: "remaining t < 0 \<Longrightarrow> message_lines h t = []"
  by (simp add: message_lines_def compose_Elapsed)

lemma milestone_tag_only:
  "\<not> prefix milestone_tag header"
  "\<not> prefix milestone_tag (progressLine (bar_of t) pct)"
  "\<not> prefix milestone_tag (days_left_line d pct)"
  "\<not> prefix milestone_tag (last_call_line pct)"
  "\<not> prefix milestone_tag (final_day_line pct)"
  "\<not> prefix milestone_tag (prompt_tag @ x)"
  "\<not> prefix milestone_tag retro_line"
  using bar_of_cases [of t]
  by (auto simp: milestone_tag_def header_def progressLine_def EVENT_NAME_def days_left_line_def last_call_line_def
      final_day_line_def prompt_tag_def retro_line_def BAR_FILLED_def BAR_EMPTY_def)

lemma retro_line_only:
  "retro_line \<noteq> header"
  "retro_line \<noteq> progressLine (bar_of t) pct"
  "retro_line \<noteq> days_left_line d pct"
  "retro_line \<noteq> last_call_line pct"
  "retro_line \<noteq> prompt_tag @ x"
  "retro_line \<noteq> milestone_tag @ x"
  using bar_of_cases [of t]
  by (auto simp: milestone_tag_def header_def progressLine_def EVENT_NAME_def days_left_line_def last_call_line_def
      prompt_tag_def retro_line_def BAR_FILLED_def BAR_EMPTY_def)

lemma templates_differ:
  "days_left_line d p \<noteq> last_call_line q"
  "days_left_line d p \<noteq> final_day_line q"
  "last_call_line p \<noteq> final_day_line q"
  by (simp_all add: days_left_line_def last_call_line_def final_day_line_def)

subsection \<open>The dedup guard\<close>

lemma strip_miss: "find (\<lambda>t. t \<noteq> [] \<and> prefix t s) toks = None \<Longrightarrow> strip toks s = s"
  by (subst strip.simps) simp

lemma strip_Nil: "strip toks [] = []"
  by (rule strip_miss) (simp add: find_None_iff)

lemma white_space_ends: "\<forall>t\<in>set white_space. \<not> is_hex (hd t) \<and> \<not> is_hex (last t)"
  by (simp add: white_space_def is_hex_def)

lemma strip_hex: "is_hex c \<Longrightarrow> strip white_space (c # cs) = c # cs"
proof (rule strip_miss)
  assume c: "is_hex c"
  have "\<not> (t \<noteq> [] \<and> prefix t (c # cs))" if "t \<in> set white_space" for t
  proof
    assume "t \<noteq> [] \<and> prefix t (c # cs)"
    then have "hd t = c"
      by (cases t) auto
    with c that white_space_ends show False
      by auto
  qed
  then show "find (\<lambda>t. t \<noteq> [] \<and> prefix t (c # cs)) white_space = None"
    by (simp add: find_None_iff)
qed

lemma strip_rev_hex: "is_hex c \<Longrightarrow> strip (map rev white_space) (c # cs) = c # cs"
proof (rule strip_miss)
  assume c: "is_hex c"
  have "\<not> (rev t \<noteq> [] \<and> prefix (rev t) (c # cs))" if "t \<in> set white_space" for t
  proof
    assume "rev t \<noteq> [] \<and> prefix (rev t) (c # cs)"
    then have "hd (rev t) = c"
      by (cases "rev t") auto
    then have "last t = c"
      by (simp add: hd_rev)
    with c that white_space_ends show False
      by auto
  qed
  then show "find (\<lambda>t. t \<noteq> [] \<and> prefix t (c # cs)) (map rev white_space) = None"
    by (auto simp: find_None_iff)
qed

lemma trim_is_hex: "list_all is_hex s \<Longrightarrow> trim s = s"
proof (cases s)
  case Nil
  then show ?thesis
    by (simp add: trim_def strip_Nil)
next
  case (Cons c cs)
  assume all: "list_all is_hex s"
  with Cons have "strip white_space s = s"
    by (simp add: strip_hex)
  moreover obtain d ds where r: "rev s = d # ds"
    using Cons by (cases "rev s") auto
  moreover have "is_hex d"
  proof -
    have "d \<in> set (rev s)"
      unfolding r by simp
    with all show ?thesis
      by (simp add: list_all_iff)
  qed
  ultimately have "trim s = rev (rev s)"
    by (simp add: trim_def strip_rev_hex)
  then show ?thesis
    by simp
qed

lemma trim_hex: "trim (hex w) = hex w"
  by (rule trim_is_hex) (rule hex_is_hex)

lemma guard_try_read_fails:
  "existsSync fs \<Longrightarrow> readFileSync fs = Inl x \<Longrightarrow> guard_try fs hash = Inl x"
  by (simp add: guard_try_def)

lemma guard_try_write_fails:
  "writeFileSync fs hash = Inl x \<Longrightarrow>
   \<not> existsSync fs \<or> (\<exists>s. readFileSync fs = Inr s \<and> trim s \<noteq> hash) \<Longrightarrow>
   guard_try fs hash = Inl x"
  by (auto simp: guard_try_def)

lemma guard_caught: "guard_try fs hash = Inl x \<Longrightarrow> alreadyPostedGuard fs hash = (False, fs)"
  by (simp add: alreadyPostedGuard_def)

lemma guard_eq:
  "alreadyPostedGuard fs hash =
     (case content fs of
        None \<Rightarrow> if writable fs then (False, fs\<lparr>content := Some hash\<rparr>) else (False, fs)
      | Some s \<Rightarrow>
          if \<not> readable fs then (False, fs)
          else if trim s = hash then (True, fs)
          else if writable fs then (False, fs\<lparr>content := Some hash\<rparr>)
          else (False, fs))"
  by (simp add: alreadyPostedGuard_def guard_try_def existsSync_def readFileSync_def
      writeFileSync_def split: option.splits)

lemma guard_duplicate:
  "content fs = Some s \<Longrightarrow> readable fs \<Longrightarrow> trim s = hash \<Longrightarrow>
   alreadyPostedGuard fs hash = (True, fs)"
  by (simp add: guard_eq)

lemma guard_absent:
  "content fs = None \<Longrightarrow> writable fs \<Longrightarrow>
   alreadyPostedGuard fs hash = (False, fs\<lparr>content := Some hash\<rparr>)"
  by (simp add: guard_eq)

lemma guard_differs:
  "content fs = Some s \<Longrightarrow> readable fs \<Longrightarrow> trim s \<noteq> hash \<Longrightarrow> writable fs \<Longrightarrow>
   alreadyPostedGuard fs hash = (False, fs\<lparr>content := Some hash\<rparr>)"
  by (simp add: guard_eq)

lemma guard_True_iff:
  "fst (alreadyPostedGuard fs hash) \<longleftrightarrow> (\<exists>s. readFileSync fs = Inr s \<and> trim s = hash)"
  by (auto simp: guard_eq readFileSync_def split: option.splits)

lemma guard_True_state:
  "fst (alreadyPostedGuard fs hash) \<Longrightarrow> snd (alreadyPostedGuard fs hash) = fs"
  by (auto simp: guard_eq split: option.splits if_splits)

lemma guard_False_state:
  "\<not> fst (alreadyPostedGuard fs hash) \<Longrightarrow> readable fs \<Longrightarrow> writable fs \<Longrightarrow>
   snd (alreadyPostedGuard fs hash) = fs\<lparr>content := Some hash\<rparr>"
  by (auto simp: guard_eq split: option.splits if_splits)

lemma guard_flags:
  "readable (snd (alreadyPostedGuard fs hash)) = readable fs"
  "writable (snd (alreadyPostedGuard fs hash)) = writable fs"
  by (auto simp: guard_eq split: option.splits if_splits)

lemma guard_stored:
  assumes "readable fs" "writable fs" "trim hash = hash"
  shows "\<exists>s. content (snd (alreadyPostedGuard fs hash)) = Some s \<and> trim s = hash"
proof (cases "fst (alreadyPostedGuard fs hash)")
  case True
  then obtain s where "readFileSync fs = Inr s" "trim s = hash"
    by (auto simp: guard_True_iff)
  then show ?thesis
    using True by (auto simp: guard_True_state readFileSync_def split: option.splits if_splits)
next
  case False
  then show ?thesis
    using assms by (simp add: guard_False_state)
qed

lemma guard_again:
  assumes "readable fs" "writable fs" "trim hash = hash"
  shows "alreadyPostedGuard (snd (alreadyPostedGuard fs hash)) hash =
           (True, snd (alreadyPostedGuard fs hash))"
proof -
  obtain s where "content (snd (alreadyPostedGuard fs hash)) = Some s" "trim s = hash"
    using guard_stored [OF assms] by auto
  then show ?thesis
    using assms(1) by (intro guard_duplicate) (simp_all add: guard_flags)
qed

subsection \<open>The run\<close>

lemma text_of_run_Text:
  "text_of_run h c e = Text core \<longleftrightarrow> (\<exists>t. resolve c (TZ e) = Inr t \<and> compose h t = Text core)"
  by (auto simp: text_of_run_def split: sum.splits)

lemma text_of_run_Inr: "resolve c (TZ e) = Inr t \<Longrightarrow> text_of_run h c e = compose h t"
  by (simp add: text_of_run_def)

lemma text_of_run_Thrown:
  "text_of_run h c e = Thrown x \<longleftrightarrow> resolve c (TZ e) = Inl x"
  using compose_not_Thrown by (auto simp: text_of_run_def split: sum.splits)

lemma main_eq:
  "main h c e fs =
     (if falsy (SLACK_WEBHOOK_URL e) then (MissingConfig, fs)
      else
        (case text_of_run h c e of
           Elapsed \<Rightarrow> (WindowElapsed, fs)
         | Thrown x \<Rightarrow> (Uncaught x, fs)
         | Text core \<Rightarrow>
             (let hash = hex (md5 h core) in
              case alreadyPostedGuard fs hash of
                (True, fs') \<Rightarrow> (DuplicateSkip core, fs')
              | (False, fs') \<Rightarrow>
                  if postMessage h (SLACK_BOT_TOKEN e) core then (Posted core, fs')
                  else (PostFailed core, fs'))))"
  by (simp add: main_def text_of_run_def split: sum.splits)

lemma main_Text:
  assumes "\<not> falsy (SLACK_WEBHOOK_URL e)" "text_of_run h c e = Text core"
  shows "main h c e fs =
     (if fst (alreadyPostedGuard fs (hex (md5 h core))) then DuplicateSkip core
      else if postMessage h (SLACK_BOT_TOKEN e) core then Posted core else PostFailed core,
      snd (alreadyPostedGuard fs (hex (md5 h core))))"
  using assms by (auto simp: main_eq Let_def split: prod.splits)

lemma main_Elapsed:
  "\<not> falsy (SLACK_WEBHOOK_URL e) \<Longrightarrow> resolve c (TZ e) = Inr t \<Longrightarrow> remaining t < 0 \<Longrightarrow>
   main h c e fs = (WindowElapsed, fs)"
  by (simp add: main_def compose_Elapsed)

lemma main_Missing: "falsy (SLACK_WEBHOOK_URL e) \<Longrightarrow> main h c e fs = (MissingConfig, fs)"
  by (simp add: main_def)

lemma main_Uncaught:
  "\<not> falsy (SLACK_WEBHOOK_URL e) \<Longrightarrow> resolve c (TZ e) = Inl x \<Longrightarrow> main h c e fs = (Uncaught x, fs)"
  by (simp add: main_def)

lemma main_PostFailed:
  "fst (main h c e fs) = PostFailed core \<Longrightarrow>
   \<not> falsy (SLACK_WEBHOOK_URL e) \<and> text_of_run h c e = Text core \<and>
   \<not> fst (alreadyPostedGuard fs (hex (md5 h core))) \<and> \<not> postMessage h (SLACK_BOT_TOKEN e) core"
  by (auto simp: main_eq Let_def split: if_splits composed.splits prod.splits bool.splits)

lemma main_published:
  "published (fst (main h c e fs)) \<noteq> [] \<longleftrightarrow>
   \<not> falsy (SLACK_WEBHOOK_URL e) \<and>
   (\<exists>core. text_of_run h c e = Text core \<and> \<not> fst (alreadyPostedGuard fs (hex (md5 h core))))"
  by (auto simp: main_eq Let_def split: composed.splits prod.splits bool.splits)

lemma main_exit:
  "exit_status (fst (main h c e fs)) = 1 \<longleftrightarrow>
     falsy (SLACK_WEBHOOK_URL e) \<or> (\<exists>x. resolve c (TZ e) = Inl x) \<or>
     (\<exists>core. text_of_run h c e = Text core \<and> \<not> fst (alreadyPostedGuard fs (hex (md5 h core)))
        \<and> \<not> postMessage h (SLACK_BOT_TOKEN e) core)"
proof (cases "text_of_run h c e")
  case Elapsed
  then have "\<not> (\<exists>x. resolve c (TZ e) = Inl x)"
    by (auto simp: text_of_run_def)
  with Elapsed show ?thesis
    by (simp add: main_eq)
next
  case (Thrown x)
  then have "resolve c (TZ e) = Inl x"
    by (simp add: text_of_run_Thrown)
  with Thrown show ?thesis
    by (auto simp: main_eq)
next
  case (Text core)
  then have "\<not> (\<exists>x. resolve c (TZ e) = Inl x)"
    by (auto simp: text_of_run_def)
  with Text show ?thesis
    by (auto simp: main_eq Let_def split: prod.splits bool.splits)
qed

lemma exit_status_binary: "exit_status x = 0 \<or> exit_status x = 1"
  by (cases x) simp_all

lemma published_composed:
  "core \<in> set (published (fst (main h c e fs))) \<Longrightarrow> text_of_run h c e = Text core"
  by (auto simp: main_eq Let_def split: if_splits composed.splits prod.splits bool.splits)

subsection \<open>The text of a run\<close>

text \<open>
  Claim C1. The nudge is a function of the remaining days and the percent string: equal
  inputs give equal text. Its generic line is the candidate at the first 32 bits of the
  MD5 digest of the seed modulo 5, its milestone line the candidate at the first 32 bits of
  the SHA-1 digest of the same seed modulo 5. The composed text is the header, the
  progress line and that nudge, so two runs whose instants fall on the same day of a
  window of whole days compose the same text, and a published text is the composed one,
  whatever the environment and the stored hash.
\<close>

theorem nudge_is_deterministic:
  "(d = d' \<and> pct = pct' \<longrightarrow>
      pickNudge h d pct (d \<in> MILESTONES) = pickNudge h d' pct' (d' \<in> MILESTONES))
   \<and> (0 < d \<longrightarrow>
        pickNudge_lines h d pct m ! 1 =
          prompt_tag @ generic ! (unat (drop_bit 96 (md5 h (seedSource d pct))) mod 5))
   \<and> (0 < d \<and> m \<longrightarrow>
        pickNudge_lines h d pct m ! 2 =
          milestone_tag @ milestoneFlavor ! (unat (drop_bit 128 (sha1 h (seedSource d pct))) mod 5))
   \<and> (0 \<le> remaining t \<longrightarrow>
        compose h t =
          Text (header @ newline @ progressLine (bar_of t) (percent t) @ newline @
                pickNudge h (remaining t) (percent t) (remaining t \<in> MILESTONES)))
   \<and> (start t = start t' \<and> target t = target t' \<and> 86400000 dvd (target t - start t)
        \<and> (now t - start t) div 86400000 = (now t' - start t') div 86400000 \<longrightarrow>
        compose h t = compose h t')
   \<and> (core \<in> set (published (fst (main h c e fs))) \<longrightarrow> text_of_run h c e = Text core)"
proof (intro conjI impI)
  assume "d = d' \<and> pct = pct'"
  then show "pickNudge h d pct (d \<in> MILESTONES) = pickNudge h d' pct' (d' \<in> MILESTONES)"
    by simp
next
  assume "0 < d"
  then show "pickNudge_lines h d pct m ! 1 =
      prompt_tag @ generic ! (unat (drop_bit 96 (md5 h (seedSource d pct))) mod 5)"
    by (auto simp: pickNudge_lines_eq chosen_generic_def lengths)
next
  assume "0 < d \<and> m"
  then show "pickNudge_lines h d pct m ! 2 =
      milestone_tag @ milestoneFlavor ! (unat (drop_bit 128 (sha1 h (seedSource d pct))) mod 5)"
    by (auto simp: pickNudge_lines_eq chosen_milestone_def lengths)
next
  assume "0 \<le> remaining t"
  then show "compose h t =
      Text (header @ newline @ progressLine (bar_of t) (percent t) @ newline @
            pickNudge h (remaining t) (percent t) (remaining t \<in> MILESTONES))"
    by (rule compose_nudge)
next
  assume "start t = start t' \<and> target t = target t' \<and> 86400000 dvd (target t - start t)
        \<and> (now t - start t) div 86400000 = (now t' - start t') div 86400000"
  then have a: "start t = start t'" "target t = target t'" "86400000 dvd (target t - start t)"
    "(now t - start t) div 86400000 = (now t' - start t') div 86400000"
    by blast+
  show "compose h t = compose h t'"
    by (rule compose_depends) (rule same_day [OF a])+
next
  assume "core \<in> set (published (fst (main h c e fs)))"
  then show "text_of_run h c e = Text core"
    by (rule published_composed)
qed

lemma hd_show_nat: "0 < n \<Longrightarrow> hd (show_nat n) \<noteq> CHR ''0''"
proof (induction n rule: show_nat.induct)
  case (1 n)
  show ?case
  proof (cases "n < 10")
    case True
    with 1(2) have "n \<in> {1, 2, 3, 4, 5, 6, 7, 8, 9}"
      by auto
    then have "digit n \<noteq> CHR ''0''"
      by (auto simp: digit_def)
    with True show ?thesis
      by (subst show_nat.simps) simp
  next
    case False
    then have "hd (show_nat (n div 10)) \<noteq> CHR ''0''"
      by (intro 1(1)) simp_all
    moreover have "show_nat (n div 10) \<noteq> []"
      using show_nat_digits [of "n div 10"] by simp
    ultimately show ?thesis
      using False by (subst show_nat.simps) simp
  qed
qed

lemma show_int_decimal:
  assumes "0 \<le> d"
  shows "list_all is_decimal (show_int d)" "read_nat (show_int d) = nat d"
    "0 < d \<Longrightarrow> hd (show_int d) \<noteq> CHR ''0''"
  using assms show_nat_digits [of "nat d"]
  by (simp_all add: show_int_def read_show_nat hd_show_nat)

lemma day_count_lines:
  "2 \<le> remaining t \<Longrightarrow> message_lines h t ! 2 = days_left_line (remaining t) (percent t)"
  "remaining t = 1 \<Longrightarrow> message_lines h t ! 2 = last_call_line (percent t)"
  "0 < remaining t \<Longrightarrow> retro_line \<notin> set (message_lines h t)"
  "remaining t = 0 \<Longrightarrow>
     message_lines h t =
       [header, progressLine (bar_of t) (percent t), final_day_line (percent t), retro_line]"
  by (auto simp: message_lines_eq pickNudge_lines_eq retro_line_only)

text \<open>
  Claim C3. The day-count line, the third line of the composed text, is the plural line
  \<^verbatim>\<open>*N days left* (P% done).\<close> when two or more days remain and the singular line
  \<^verbatim>\<open>*1 day left!* (P% done). Last call.\<close> when one day remains, in both cases without the
  retrospective line; on the final day the text is the header, the progress line, the line
  \<^verbatim>\<open>*Today is the final day!* (P% complete). Make it count.\<close> and, last, the retrospective
  line; when the remaining days are negative no text is composed and a run at these
  instants publishes nothing. \<open>N\<close> is the number of remaining days in decimal digits, without
  a leading zero, and \<open>P\<close> the percent string.
\<close>

theorem day_count_line_branches:
  "(2 \<le> remaining t \<longrightarrow>
      message_lines h t ! 2 =
        [CHR 0xE2, CHR 0x8F, CHR 0xB3] @ '' *'' @ show_int (remaining t) @ '' days left* ('' @
          percent t @ ''% done).''
      \<and> [CHR 0xF0, CHR 0x9F, CHR 0x8F, CHR 0x81] @
          '' *Project is over after today.* Post a retro: What worked? What was noise? What will you keep doing?''
          \<notin> set (message_lines h t))
   \<and> (remaining t = 1 \<longrightarrow>
      message_lines h t ! 2 =
        [CHR 0xF0, CHR 0x9F, CHR 0x94, CHR 0xA5] @ '' *1 day left!* ('' @ percent t @
          ''% done). Last call.''
      \<and> [CHR 0xF0, CHR 0x9F, CHR 0x8F, CHR 0x81] @
          '' *Project is over after today.* Post a retro: What worked? What was noise? What will you keep doing?''
          \<notin> set (message_lines h t))
   \<and> (remaining t = 0 \<longrightarrow>
      message_lines h t =
        [''*What have you done today to double your money?*'',
         bar_of t @ '' '' @ percent t @ ''%'',
         [CHR 0xF0, CHR 0x9F, CHR 0x9A, CHR 0x80] @ '' *Today is the final day!* ('' @ percent t @
           ''% complete). Make it count.'',
         [CHR 0xF0, CHR 0x9F, CHR 0x8F, CHR 0x81] @
          '' *Project is over after today.* Post a retro: What worked? What was noise? What will you keep doing?''])
   \<and> (remaining t < 0 \<longrightarrow>
      compose h t = Elapsed \<and> message_lines h t = []
      \<and> (resolve c (TZ e) = Inr t \<longrightarrow> published (fst (main h c e fs)) = []))
   \<and> (d < 0 \<longrightarrow> pickNudge_lines h d pct m = [] \<and> pickNudge h d pct m = [])
   \<and> (0 \<le> d \<longrightarrow>
        list_all is_decimal (show_int d) \<and> read_nat (show_int d) = nat d
        \<and> (0 < d \<longrightarrow> hd (show_int d) \<noteq> CHR ''0''))"
proof (intro conjI impI)
  assume a: "2 \<le> remaining t"
  then have "message_lines h t ! 2 = days_left_line (remaining t) (percent t)"
    by (rule day_count_lines)
  then show "message_lines h t ! 2 =
      [CHR 0xE2, CHR 0x8F, CHR 0xB3] @ '' *'' @ show_int (remaining t) @ '' days left* ('' @
        percent t @ ''% done).''"
    by (simp only: days_left_line_def)
  have "retro_line \<notin> set (message_lines h t)"
    by (rule day_count_lines) (use a in simp)
  then show "[CHR 0xF0, CHR 0x9F, CHR 0x8F, CHR 0x81] @
          '' *Project is over after today.* Post a retro: What worked? What was noise? What will you keep doing?''
      \<notin> set (message_lines h t)"
    unfolding retro_line_def .
next
  assume a: "remaining t = 1"
  then have "message_lines h t ! 2 = last_call_line (percent t)"
    by (rule day_count_lines)
  then show "message_lines h t ! 2 =
      [CHR 0xF0, CHR 0x9F, CHR 0x94, CHR 0xA5] @ '' *1 day left!* ('' @ percent t @
        ''% done). Last call.''"
    by (simp only: last_call_line_def)
  have "retro_line \<notin> set (message_lines h t)"
    by (rule day_count_lines) (use a in simp)
  then show "[CHR 0xF0, CHR 0x9F, CHR 0x8F, CHR 0x81] @
          '' *Project is over after today.* Post a retro: What worked? What was noise? What will you keep doing?''
      \<notin> set (message_lines h t)"
    unfolding retro_line_def .
next
  assume "remaining t = 0"
  then have "message_lines h t =
      [header, progressLine (bar_of t) (percent t), final_day_line (percent t), retro_line]"
    by (rule day_count_lines)
  then show "message_lines h t =
      [''*What have you done today to double your money?*'',
       bar_of t @ '' '' @ percent t @ ''%'',
       [CHR 0xF0, CHR 0x9F, CHR 0x9A, CHR 0x80] @ '' *Today is the final day!* ('' @ percent t @
         ''% complete). Make it count.'',
       [CHR 0xF0, CHR 0x9F, CHR 0x8F, CHR 0x81] @
          '' *Project is over after today.* Post a retro: What worked? What was noise? What will you keep doing?'']"
    by (simp add: header_def EVENT_NAME_def progressLine_def final_day_line_def retro_line_def)
next
  assume a: "remaining t < 0"
  then show "compose h t = Elapsed" "message_lines h t = []"
    by (simp_all add: compose_Elapsed message_lines_Elapsed)
  assume "resolve c (TZ e) = Inr t"
  with a show "published (fst (main h c e fs)) = []"
    by (cases "falsy (SLACK_WEBHOOK_URL e)") (simp_all add: main_Missing main_Elapsed)
next
  assume "0 \<le> d"
  then show "list_all is_decimal (show_int d)" "read_nat (show_int d) = nat d"
    by (rule show_int_decimal)+
next
  assume "0 \<le> d" "0 < d"
  then show "hd (show_int d) \<noteq> CHR ''0''"
    by (rule show_int_decimal)
next
  assume "d < 0"
  then show "pickNudge_lines h d pct m = []" "pickNudge h d pct m = []"
    by (simp_all add: pickNudge_def pickNudge_lines_eq)
qed

text \<open>
  Claim C4. A line with the milestone tag occurs in the composed text exactly when the
  remaining days are one of 90, 75, 60, 45, 30, 21, 14, 10, 7, 5, 3, 2, 1, 0 and positive;
  it is then the last line, with the candidate that SHA-1 selects.
\<close>

theorem milestone_line_iff:
  "((\<exists>l\<in>set (message_lines h t). prefix milestone_tag l) \<longleftrightarrow>
      remaining t \<in> {90, 75, 60, 45, 30, 21, 14, 10, 7, 5, 3, 2, 1, 0} \<and> 0 < remaining t)
   \<and> (remaining t \<in> MILESTONES \<and> 0 < remaining t \<longrightarrow>
        last (message_lines h t) = milestone_tag @ chosen_milestone h (remaining t) (percent t))
   \<and> MILESTONES = {90, 75, 60, 45, 30, 21, 14, 10, 7, 5, 3, 2, 1, 0}"
proof (intro conjI impI)
  show "MILESTONES = {90, 75, 60, 45, 30, 21, 14, 10, 7, 5, 3, 2, 1, 0}"
    by (rule MILESTONES_def)
  show "(\<exists>l\<in>set (message_lines h t). prefix milestone_tag l) \<longleftrightarrow>
      remaining t \<in> {90, 75, 60, 45, 30, 21, 14, 10, 7, 5, 3, 2, 1, 0} \<and> 0 < remaining t"
  proof (cases "remaining t < 0")
    case True
    then show ?thesis
      by (simp add: message_lines_Elapsed)
  next
    case False
    then have "(\<exists>l\<in>set (message_lines h t). prefix milestone_tag l) \<longleftrightarrow>
        remaining t \<in> MILESTONES \<and> 0 < remaining t"
      by (auto simp: message_lines_eq pickNudge_lines_eq milestone_tag_only)
    then show ?thesis
      by (simp only: MILESTONES_def)
  qed
next
  assume "remaining t \<in> MILESTONES \<and> 0 < remaining t"
  then show "last (message_lines h t) = milestone_tag @ chosen_milestone h (remaining t) (percent t)"
    by (auto simp: message_lines_eq pickNudge_lines_eq)
qed

subsection \<open>The guard and the exit status of a run\<close>

text \<open>
  Claim C8. A failure of the guard's storage is swallowed: a failing read of the existing
  file, or a failing write once the write is reached, is the exception of the \<^verbatim>\<open>try\<close>
  block; whenever that block throws, the guard returns \<^verbatim>\<open>false\<close> and leaves the file as it
  was, and the run goes on to hand the composed text to the publisher.
\<close>

theorem guard_swallows_storage_errors:
  "(existsSync fs \<and> readFileSync fs = Inl x \<longrightarrow> guard_try fs hash = Inl x)
   \<and> (writeFileSync fs hash = Inl x
        \<and> (\<not> existsSync fs \<or> (\<exists>s. readFileSync fs = Inr s \<and> trim s \<noteq> hash))
        \<longrightarrow> guard_try fs hash = Inl x)
   \<and> (guard_try fs hash = Inl x \<longrightarrow> alreadyPostedGuard fs hash = (False, fs))
   \<and> (\<not> falsy (SLACK_WEBHOOK_URL e) \<and> text_of_run h c e = Text core
        \<and> guard_try fs (hex (md5 h core)) = Inl x
        \<longrightarrow> published (fst (main h c e fs)) = [core])"
  by (auto simp: guard_try_read_fails guard_try_write_fails guard_caught main_Text)

text \<open>
  Claim C2. Two consecutive runs on a storage that reads and writes, both past the
  configuration check and composing the same text: in the second run the guard returns
  \<^verbatim>\<open>true\<close>, the publisher is not called and the file is left as the first run left it.
  When the file is absent or holds something else than the new hash, the guard stores the
  new hash and returns \<^verbatim>\<open>false\<close>.
\<close>

theorem second_run_skips_duplicate:
  "(readable fs \<and> writable fs
      \<and> \<not> falsy (SLACK_WEBHOOK_URL e1) \<and> \<not> falsy (SLACK_WEBHOOK_URL e2)
      \<and> md5 h2 = md5 h1 \<and> text_of_run h1 c1 e1 = Text core \<and> text_of_run h2 c2 e2 = Text core
    \<longrightarrow> fst (alreadyPostedGuard (snd (main h1 c1 e1 fs)) (hex (md5 h2 core)))
        \<and> main h2 c2 e2 (snd (main h1 c1 e1 fs)) = (DuplicateSkip core, snd (main h1 c1 e1 fs))
        \<and> published (fst (main h2 c2 e2 (snd (main h1 c1 e1 fs)))) = [])
   \<and> (readable fs \<and> writable fs \<and> (\<forall>s. content fs = Some s \<longrightarrow> trim s \<noteq> hash)
    \<longrightarrow> alreadyPostedGuard fs hash = (False, fs\<lparr>content := Some hash\<rparr>))
   \<and> (readable fs \<and> writable fs
      \<and> \<not> falsy (SLACK_WEBHOOK_URL e1) \<and> \<not> falsy (SLACK_WEBHOOK_URL e2)
      \<and> text_of_run h1 c1 e1 = Text core \<and> text_of_run h2 c2 e2 = Text core'
      \<and> hex (md5 h2 core') \<noteq> hex (md5 h1 core)
    \<longrightarrow> \<not> fst (alreadyPostedGuard (snd (main h1 c1 e1 fs)) (hex (md5 h2 core')))
        \<and> published (fst (main h2 c2 e2 (snd (main h1 c1 e1 fs)))) = [core']
        \<and> content (snd (main h2 c2 e2 (snd (main h1 c1 e1 fs)))) = Some (hex (md5 h2 core')))"
proof (intro conjI impI)
  assume a: "readable fs \<and> writable fs
      \<and> \<not> falsy (SLACK_WEBHOOK_URL e1) \<and> \<not> falsy (SLACK_WEBHOOK_URL e2)
      \<and> md5 h2 = md5 h1 \<and> text_of_run h1 c1 e1 = Text core \<and> text_of_run h2 c2 e2 = Text core"
  define fs1 where "fs1 = snd (main h1 c1 e1 fs)"
  have fs1: "fs1 = snd (alreadyPostedGuard fs (hex (md5 h2 core)))"
    using a by (simp add: fs1_def main_Text)
  have again: "alreadyPostedGuard fs1 (hex (md5 h2 core)) = (True, fs1)"
    unfolding fs1 using a by (intro guard_again) (simp_all add: trim_hex)
  then show "fst (alreadyPostedGuard fs1 (hex (md5 h2 core)))"
    by simp
  from again a show "main h2 c2 e2 fs1 = (DuplicateSkip core, fs1)"
    by (simp add: main_Text)
  then show "published (fst (main h2 c2 e2 fs1)) = []"
    by simp
next
  assume "readable fs \<and> writable fs \<and> (\<forall>s. content fs = Some s \<longrightarrow> trim s \<noteq> hash)"
  then show "alreadyPostedGuard fs hash = (False, fs\<lparr>content := Some hash\<rparr>)"
    by (auto simp: guard_eq split: option.splits)
next
  assume a: "readable fs \<and> writable fs
      \<and> \<not> falsy (SLACK_WEBHOOK_URL e1) \<and> \<not> falsy (SLACK_WEBHOOK_URL e2)
      \<and> text_of_run h1 c1 e1 = Text core \<and> text_of_run h2 c2 e2 = Text core'
      \<and> hex (md5 h2 core') \<noteq> hex (md5 h1 core)"
  define fs1 where "fs1 = snd (main h1 c1 e1 fs)"
  have fs1: "fs1 = snd (alreadyPostedGuard fs (hex (md5 h1 core)))"
    using a by (simp add: fs1_def main_Text)
  obtain s where s: "content fs1 = Some s" "trim s = hex (md5 h1 core)"
    unfolding fs1 using a guard_stored [of fs "hex (md5 h1 core)"] by (auto simp: trim_hex)
  have flags: "readable fs1" "writable fs1"
    unfolding fs1 using a by (simp_all add: guard_flags)
  have g: "alreadyPostedGuard fs1 (hex (md5 h2 core')) =
      (False, fs1\<lparr>content := Some (hex (md5 h2 core'))\<rparr>)"
    using s flags a by (intro guard_differs) auto
  then show "\<not> fst (alreadyPostedGuard fs1 (hex (md5 h2 core')))"
    by simp
  from g a show "published (fst (main h2 c2 e2 fs1)) = [core']"
    and "content (snd (main h2 c2 e2 fs1)) = Some (hex (md5 h2 core'))"
    by (simp_all add: main_Text)
qed

text \<open>
  Claim C9. The hash is written before the post is attempted: when the post of a run
  fails (exit status 1) on a storage that reads and writes, the file already holds the
  hash of the failed text, and a following run that composes the same text is skipped as a
  duplicate, without a call of the publisher.
\<close>

theorem failed_post_is_not_retried:
  assumes "readable fs" and "writable fs"
    and "\<not> falsy (SLACK_WEBHOOK_URL e2)" and "md5 h2 = md5 h1"
    and "fst (main h1 c1 e1 fs) = PostFailed core"
    and "text_of_run h2 c2 e2 = Text core"
  shows "content (snd (main h1 c1 e1 fs)) = Some (hex (md5 h1 core))
    \<and> exit_status (fst (main h1 c1 e1 fs)) = 1
    \<and> main h2 c2 e2 (snd (main h1 c1 e1 fs)) = (DuplicateSkip core, snd (main h1 c1 e1 fs))
    \<and> published (fst (main h2 c2 e2 (snd (main h1 c1 e1 fs)))) = []"
proof -
  have first: "\<not> falsy (SLACK_WEBHOOK_URL e1)" "text_of_run h1 c1 e1 = Text core"
    "\<not> fst (alreadyPostedGuard fs (hex (md5 h1 core)))"
    using main_PostFailed [OF assms(5)] by simp_all
  define fs1 where "fs1 = snd (main h1 c1 e1 fs)"
  have fs1: "fs1 = fs\<lparr>content := Some (hex (md5 h1 core))\<rparr>"
    using first assms(1,2) by (simp add: fs1_def main_Text guard_False_state)
  then have "alreadyPostedGuard fs1 (hex (md5 h2 core)) = (True, fs1)"
    using assms(1,4) by (simp add: guard_eq trim_hex)
  then have "main h2 c2 e2 fs1 = (DuplicateSkip core, fs1)"
    using assms(3,6) by (simp add: main_Text)
  then show ?thesis
    using fs1 assms(5) by (simp add: fs1_def)
qed

text \<open>
  Claim C5, amended. The exit status is 1 exactly when \<^verbatim>\<open>SLACK_WEBHOOK_URL\<close> is missing at
  startup, or the time resolver throws on the time zone, or the publisher is called and
  fails, and 0 otherwise. In particular a run past the configuration check ends with
  status 1, posting nothing and leaving the file untouched, when the time zone is not
  known; with status 0, posting nothing and leaving the file untouched, when the window
  has elapsed; and with status 0, posting nothing, on a duplicate.
\<close>

theorem exit_status_of_run:
  "(exit_status (fst (main h c e fs)) = 1 \<longleftrightarrow>
      falsy (SLACK_WEBHOOK_URL e) \<or> (\<exists>x. resolve c (TZ e) = Inl x) \<or>
      (\<exists>core. text_of_run h c e = Text core \<and> \<not> fst (alreadyPostedGuard fs (hex (md5 h core)))
         \<and> \<not> postMessage h (SLACK_BOT_TOKEN e) core))
   \<and> (exit_status (fst (main h c e fs)) \<noteq> 1 \<longrightarrow> exit_status (fst (main h c e fs)) = 0)
   \<and> (\<not> falsy (SLACK_WEBHOOK_URL e) \<and> resolve c (TZ e) = Inl x \<longrightarrow>
        main h c e fs = (Uncaught x, fs) \<and> exit_status (fst (main h c e fs)) = 1
        \<and> published (fst (main h c e fs)) = [])
   \<and> (\<not> falsy (SLACK_WEBHOOK_URL e) \<and> resolve c (TZ e) = Inr t \<and> remaining t < 0 \<longrightarrow>
        main h c e fs = (WindowElapsed, fs) \<and> exit_status (fst (main h c e fs)) = 0
        \<and> published (fst (main h c e fs)) = [])
   \<and> (\<not> falsy (SLACK_WEBHOOK_URL e) \<and> text_of_run h c e = Text core
        \<and> fst (alreadyPostedGuard fs (hex (md5 h core))) \<longrightarrow>
        main h c e fs = (DuplicateSkip core, fs) \<and> exit_status (fst (main h c e fs)) = 0
        \<and> published (fst (main h c e fs)) = [])"
proof (intro conjI impI)
  show "exit_status (fst (main h c e fs)) = 1 \<longleftrightarrow>
      falsy (SLACK_WEBHOOK_URL e) \<or> (\<exists>x. resolve c (TZ e) = Inl x) \<or>
      (\<exists>core. text_of_run h c e = Text core \<and> \<not> fst (alreadyPostedGuard fs (hex (md5 h core)))
         \<and> \<not> postMessage h (SLACK_BOT_TOKEN e) core)"
    by (rule main_exit)
next
  assume "exit_status (fst (main h c e fs)) \<noteq> 1"
  then show "exit_status (fst (main h c e fs)) = 0"
    using exit_status_binary [of "fst (main h c e fs)"] by simp
next
  assume a: "\<not> falsy (SLACK_WEBHOOK_URL e) \<and> resolve c (TZ e) = Inl x"
  then show "main h c e fs = (Uncaught x, fs)"
    by (simp add: main_Uncaught)
  then show "exit_status (fst (main h c e fs)) = 1" "published (fst (main h c e fs)) = []"
    by simp_all
next
  assume a: "\<not> falsy (SLACK_WEBHOOK_URL e) \<and> resolve c (TZ e) = Inr t \<and> remaining t < 0"
  then show "main h c e fs = (WindowElapsed, fs)"
    by (simp add: main_Elapsed)
  then show "exit_status (fst (main h c e fs)) = 0" "published (fst (main h c e fs)) = []"
    by simp_all
next
  assume a: "\<not> falsy (SLACK_WEBHOOK_URL e) \<and> text_of_run h c e = Text core
        \<and> fst (alreadyPostedGuard fs (hex (md5 h core)))"
  then show "main h c e fs = (DuplicateSkip core, fs)"
    by (simp add: main_Text guard_True_state)
  then show "exit_status (fst (main h c e fs)) = 0" "published (fst (main h c e fs)) = []"
    by simp_all
qed

text \<open>
  Claim C10, amended. The configuration check fails exactly when \<^verbatim>\<open>SLACK_WEBHOOK_URL\<close> is
  unset or empty, and \<^verbatim>\<open>SLACK_BOT_TOKEN\<close> is never checked: with a non-empty webhook and an
  unset token the check passes, the publisher is called exactly when the time resolver
  accepts the time zone, the window has not elapsed and the guard reports no duplicate,
  and it is then called with the unset token.
\<close>

theorem unvalidated_token_reaches_publisher:
  "(fst (main h c e fs) = MissingConfig \<longleftrightarrow> falsy (SLACK_WEBHOOK_URL e))
   \<and> (falsy (SLACK_WEBHOOK_URL e) \<longleftrightarrow> SLACK_WEBHOOK_URL e = None \<or> SLACK_WEBHOOK_URL e = Some [])
   \<and> (\<not> falsy (SLACK_WEBHOOK_URL e) \<and> SLACK_BOT_TOKEN e = None \<longrightarrow>
        (published (fst (main h c e fs)) \<noteq> [] \<longleftrightarrow>
           (\<exists>t. resolve c (TZ e) = Inr t \<and> 0 \<le> remaining t \<and>
              (\<exists>core. compose h t = Text core
                 \<and> \<not> fst (alreadyPostedGuard fs (hex (md5 h core))))))
        \<and> (\<forall>core. text_of_run h c e = Text core
               \<and> \<not> fst (alreadyPostedGuard fs (hex (md5 h core))) \<longrightarrow>
             fst (main h c e fs) = (if postMessage h None core then Posted core else PostFailed core)))"
proof (intro conjI impI allI)
  show "fst (main h c e fs) = MissingConfig \<longleftrightarrow> falsy (SLACK_WEBHOOK_URL e)"
    by (auto simp: main_eq Let_def split: composed.splits prod.splits bool.splits)
  show "falsy (SLACK_WEBHOOK_URL e) \<longleftrightarrow> SLACK_WEBHOOK_URL e = None \<or> SLACK_WEBHOOK_URL e = Some []"
    by (simp add: falsy_def split: option.splits)
next
  assume a: "\<not> falsy (SLACK_WEBHOOK_URL e) \<and> SLACK_BOT_TOKEN e = None"
  have "compose h t = Text core \<Longrightarrow> 0 \<le> remaining t" for core t
    using compose_Elapsed [of t h] by (cases "remaining t < 0") auto
  with a show "published (fst (main h c e fs)) \<noteq> [] \<longleftrightarrow>
      (\<exists>t. resolve c (TZ e) = Inr t \<and> 0 \<le> remaining t \<and>
         (\<exists>core. compose h t = Text core \<and> \<not> fst (alreadyPostedGuard fs (hex (md5 h core)))))"
    unfolding main_published text_of_run_Text by blast
next
  fix core
  assume "\<not> falsy (SLACK_WEBHOOK_URL e) \<and> SLACK_BOT_TOKEN e = None"
    and "text_of_run h c e = Text core \<and> \<not> fst (alreadyPostedGuard fs (hex (md5 h core)))"
  then show "fst (main h c e fs) = (if postMessage h None core then Posted core else PostFailed core)"
    by (simp add: main_Text)
qed

subsection \<open>Sample runs\<close>

text \<open>The sample runs evaluated, and with them an instance of each property above at
  which its hypotheses hold.\<close>

lemma demo_days: "remaining demo_times = 2" "elapsedDays demo_times = 88" "totalDays demo_times = 90"
  by (simp_all add: remaining_def elapsedDays_def totalDays_def daysLeft_div daysDiff_div
      demo_times_def)

lemma demo_progress:
  "buildProgress 88 90 = Inr (concat (replicate 29 BAR_FILLED) @ BAR_EMPTY, ''97.8'')"
  using buildProgress_88_90 by simp

lemma demo_index:
  "unat (drop_bit 96 (push_bit 96 (word_of_nat 6) :: 128 word)) mod 5 = 1"
  "unat (drop_bit 128 (push_bit 128 (word_of_nat 7) :: 160 word)) mod 5 = 2"
  by code_simp+

lemma demo_seed: "seedSource 2 ''97.8'' = ''2-97.8''"
  by (simp add: seedSource_def show_int_def show_nat.simps digit_def)

lemma demo_lines:
  "pickNudge_lines demo_host 2 ''97.8'' True =
     [days_left_line 2 ''97.8'', prompt_tag @ generic ! 1, milestone_tag @ milestoneFlavor ! 2]"
proof -
  have seed: "seedSource 2 ''97.8'' = ''2-97.8''"
    by (simp add: seedSource_def show_int_def show_nat.simps digit_def)
  have "pick_index (hex (md5 demo_host ''2-97.8'')) (length generic) = Some 1"
    using demo_index(1) by (simp add: pick_index_md5 demo_host_def generic_def)
  moreover have "pick_index (hex (sha1 demo_host ''2-97.8'')) (length milestoneFlavor) = Some 2"
    using demo_index(2) by (simp add: pick_index_sha1 demo_host_def milestoneFlavor_def)
  moreover have "length generic = 5" "length milestoneFlavor = 5"
    by (simp_all add: generic_def milestoneFlavor_def)
  ultimately show ?thesis
    by (simp add: pickNudge_lines_def seed element_def Let_def)
qed

lemma demo_chosen:
  "chosen_generic demo_host 2 ''97.8'' = generic ! 1"
  "chosen_milestone demo_host 2 ''97.8'' = milestoneFlavor ! 2"
  using demo_index
  by (simp_all add: chosen_generic_def chosen_milestone_def demo_seed demo_host_def lengths)

lemma demo_compose: "compose demo_host demo_times = Text demo_core"
proof -
  have "2 \<in> MILESTONES"
    by (simp add: MILESTONES_def)
  then show ?thesis
    by (simp add: compose_def demo_days demo_progress pickNudge_def demo_lines demo_core_def)
qed

lemma demo_percent: "bar_of demo_times = concat (replicate 29 BAR_FILLED) @ BAR_EMPTY"
  "percent demo_times = ''97.8''"
  by (simp_all add: bar_of_def percent_def demo_days demo_progress)

lemma demo_late_remaining: "remaining demo_late = - 1"
  by (simp add: remaining_def daysLeft_div demo_late_def)

lemma demo_eve_days: "remaining demo_eve = 1" "elapsedDays demo_eve = 89" "totalDays demo_eve = 90"
  by (simp_all add: remaining_def elapsedDays_def totalDays_def daysLeft_div daysDiff_div
      demo_eve_def)

lemma demo_eve_percent: "percent demo_eve = ''98.9''"
  by (simp add: percent_def demo_eve_days buildProgress_89_90)

lemma demo_final_days:
  "remaining demo_final = 0" "elapsedDays demo_final = 90" "totalDays demo_final = 90"
  by (simp_all add: remaining_def elapsedDays_def totalDays_def daysLeft_div daysDiff_div
      demo_final_def)

lemma demo_final_percent: "bar_of demo_final = concat (replicate 30 BAR_FILLED)"
  "percent demo_final = ''100.0''"
  by (simp_all add: bar_of_def percent_def demo_final_days buildProgress_90_90)

lemma demo_quiet_days: "remaining demo_quiet = 4"
  by (simp add: remaining_def daysLeft_div demo_quiet_def)

lemma demo_final_compose: "compose demo_host demo_final = Text demo_final_core"
  using compose_eq [of demo_final demo_host]
  by (simp add: demo_final_days demo_final_percent pickNudge_lines_eq demo_final_core_def)

lemma demo_lengths: "length demo_core = 354" "length demo_final_core = 346"
  by (simp_all add: demo_core_def demo_final_core_def header_def progressLine_def EVENT_NAME_def
      days_left_line_def final_day_line_def retro_line_def prompt_tag_def milestone_tag_def
      generic_def milestoneFlavor_def newline_def BAR_FILLED_def BAR_EMPTY_def show_int_def
      show_nat.simps digit_def length_concat sum_list_replicate)

lemma demo_hex_differ:
  "hex (push_bit 96 (word_of_nat 346) :: 128 word) \<noteq> hex (push_bit 96 (word_of_nat 354) :: 128 word)"
  by code_simp

lemma demo_hashes_differ:
  "hex (md5 demo_host demo_final_core) \<noteq> hex (md5 demo_host demo_core)"
  using demo_hex_differ by (simp add: demo_host_def demo_lengths)

lemma demo_facts:
  "readable demo_fs" "writable demo_fs" "content demo_fs = None"
  "\<not> falsy (SLACK_WEBHOOK_URL demo_env)" "SLACK_WEBHOOK_URL demo_env \<noteq> None"
  "SLACK_BOT_TOKEN demo_env = None"
  "readable demo_stored" "writable demo_stored"
  "content demo_stored = Some (hex (md5 demo_host demo_core))"
  by (simp_all add: demo_fs_def demo_env_def demo_stored_def falsy_def)

lemma demo_zone_facts:
  "\<not> falsy (SLACK_WEBHOOK_URL demo_zone_env)" "SLACK_WEBHOOK_URL demo_zone_env \<noteq> None"
  "SLACK_BOT_TOKEN demo_zone_env = None" "env_TZ demo_zone_env = Some ''Mars/Phobos''"
  "TZ demo_zone_env = ''Mars/Phobos''" "TZ demo_env = ''Asia/Jerusalem''"
  by (simp_all add: demo_zone_env_def demo_env_def falsy_def TZ_def)

lemma demo_resolve:
  "resolve (demo_clock t) (TZ demo_env) = Inr t"
  "resolve (demo_clock t) (TZ demo_zone_env) = Inl RangeError"
  "resolve (demo_clock t) ''Asia/Jerusalem'' = Inr t"
  "resolve (demo_clock t) ''Mars/Phobos'' = Inl RangeError"
  by (simp_all add: resolve_def demo_clock_def demo_zone_facts START_DATE_def TARGET_DATE_def)

lemma demo_text:
  "text_of_run demo_host (demo_clock t) demo_env = compose demo_host t"
  "text_of_run demo_host (demo_clock demo_times) demo_env = Text demo_core"
  "text_of_run demo_host (demo_clock demo_final) demo_env = Text demo_final_core"
  by (simp_all add: text_of_run_Inr demo_resolve demo_compose demo_final_compose)

lemma demo_first_run:
  "main demo_host (demo_clock demo_times) demo_env demo_fs = (PostFailed demo_core, demo_stored)"
proof -
  have "alreadyPostedGuard demo_fs hash = (False, demo_fs\<lparr>content := Some hash\<rparr>)" for hash
    by (simp add: guard_absent demo_facts)
  moreover have "\<not> postMessage demo_host (SLACK_BOT_TOKEN demo_env) demo_core"
    by (simp add: demo_host_def demo_env_def)
  moreover have "demo_fs\<lparr>content := Some hash\<rparr> = \<lparr>content = Some hash, readable = True, writable = True\<rparr>"
    for hash by (simp add: demo_fs_def)
  ultimately show ?thesis
    by (simp add: main_Text [OF demo_facts(4) demo_text(2)] demo_stored_def)
qed

lemma demo_second_run:
  "main demo_host (demo_clock demo_times) demo_env demo_stored = (DuplicateSkip demo_core, demo_stored)"
proof -
  have "alreadyPostedGuard demo_stored (hex (md5 demo_host demo_core)) = (True, demo_stored)"
    by (rule guard_duplicate [OF demo_facts(9) demo_facts(7) trim_hex])
  then show ?thesis
    by (simp add: main_Text [OF demo_facts(4) demo_text(2)])
qed

lemma demo_late_run:
  "main demo_host (demo_clock demo_late) demo_env demo_fs = (WindowElapsed, demo_fs)"
  by (rule main_Elapsed [OF demo_facts(4) demo_resolve(1)]) (simp add: demo_late_remaining)

lemma demo_blank_run:
  "main demo_host (demo_clock demo_times) demo_blank_env demo_fs = (MissingConfig, demo_fs)"
  by (rule main_Missing) (simp add: demo_blank_env_def falsy_def)

lemma demo_zone_run:
  "main demo_host (demo_clock demo_times) demo_zone_env demo_fs = (Uncaught RangeError, demo_fs)"
  by (rule main_Uncaught [OF demo_zone_facts(1) demo_resolve(2)])

theorem nudge_is_deterministic_witness:
  "now demo_times \<noteq> now demo_rerun
   \<and> start demo_times = start demo_rerun \<and> target demo_times = target demo_rerun
   \<and> 86400000 dvd (target demo_times - start demo_times)
   \<and> (now demo_times - start demo_times) div 86400000 = (now demo_rerun - start demo_rerun) div 86400000
   \<and> compose demo_host demo_times = Text demo_core
   \<and> compose demo_host demo_rerun = Text demo_core
   \<and> pickNudge_lines demo_host 2 ''97.8'' True ! 1 = prompt_tag @ generic ! 1
   \<and> pickNudge_lines demo_host 2 ''97.8'' True ! 2 = milestone_tag @ milestoneFlavor ! 2"
proof -
  have f1: "now demo_times \<noteq> now demo_rerun"
    and f2: "start demo_times = start demo_rerun"
    and f3: "target demo_times = target demo_rerun"
    and f4: "86400000 dvd (target demo_times - start demo_times)"
    and f5: "(now demo_times - start demo_times) div 86400000 =
      (now demo_rerun - start demo_rerun) div 86400000"
    by (simp_all add: demo_times_def demo_rerun_def)
  have "compose demo_host demo_times = compose demo_host demo_rerun"
    using f2 f3 f4 f5
      nudge_is_deterministic [where d = 2 and d' = 2 and pct = "''97.8''" and pct' = "''97.8''"
        and h = demo_host and m = True and t = demo_times and t' = demo_rerun
        and core = demo_core and c = "demo_clock demo_times" and e = demo_env and fs = demo_fs]
    by blast
  then have c: "compose demo_host demo_rerun = Text demo_core"
    by (simp add: demo_compose)
  have l1: "pickNudge_lines demo_host 2 ''97.8'' True ! 1 = prompt_tag @ generic ! 1"
    and l2: "pickNudge_lines demo_host 2 ''97.8'' True ! 2 = milestone_tag @ milestoneFlavor ! 2"
    by (simp_all add: demo_lines)
  show ?thesis
    by (intro conjI) (rule f1 f2 f3 f4 f5 demo_compose c l1 l2)+
qed

theorem day_count_line_branches_witness:
  "2 \<le> remaining demo_times
   \<and> message_lines demo_host demo_times ! 2 =
       [CHR 0xE2, CHR 0x8F, CHR 0xB3] @ '' *2 days left* (97.8% done).''
   \<and> remaining demo_eve = 1
   \<and> message_lines demo_host demo_eve ! 2 =
       [CHR 0xF0, CHR 0x9F, CHR 0x94, CHR 0xA5] @ '' *1 day left!* (98.9% done). Last call.''
   \<and> remaining demo_final = 0
   \<and> message_lines demo_host demo_final =
       [''*What have you done today to double your money?*'',
        concat (replicate 30 BAR_FILLED) @ '' 100.0%'',
        [CHR 0xF0, CHR 0x9F, CHR 0x9A, CHR 0x80] @
          '' *Today is the final day!* (100.0% complete). Make it count.'',
        [CHR 0xF0, CHR 0x9F, CHR 0x8F, CHR 0x81] @
          '' *Project is over after today.* Post a retro: What worked? What was noise? What will you keep doing?'']
   \<and> remaining demo_late < 0
   \<and> compose demo_host demo_late = Elapsed
   \<and> resolve (demo_clock demo_late) (TZ demo_env) = Inr demo_late
   \<and> published (fst (main demo_host (demo_clock demo_late) demo_env demo_fs)) = []
   \<and> pickNudge demo_host (- 1) ''100.0'' False = []
   \<and> show_int 2 = ''2''"
proof -
  have s: "show_int 2 = ''2''"
    by (simp add: show_int_def show_nat.simps digit_def)
  show ?thesis
    using
      day_count_line_branches [where t = demo_times and h = demo_host and e = demo_env
        and c = "demo_clock demo_late" and fs = demo_fs and d = "- 1" and pct = "''100.0''"
        and m = False]
      day_count_line_branches [where t = demo_eve and h = demo_host and d = 2]
      day_count_line_branches [where t = demo_final and h = demo_host and d = 2]
      day_count_line_branches [where t = demo_late and h = demo_host and e = demo_env
        and c = "demo_clock demo_late" and fs = demo_fs and d = 2]
    by (simp add: demo_days demo_percent demo_eve_days demo_eve_percent demo_final_days
        demo_final_percent demo_late_remaining demo_resolve s)
qed

theorem milestone_line_iff_witness:
  "remaining demo_times = 2
   \<and> (\<exists>l\<in>set (message_lines demo_host demo_times). prefix milestone_tag l)
   \<and> last (message_lines demo_host demo_times) = milestone_tag @ milestoneFlavor ! 2
   \<and> remaining demo_final = 0
   \<and> \<not> (\<exists>l\<in>set (message_lines demo_host demo_final). prefix milestone_tag l)
   \<and> remaining demo_quiet = 4
   \<and> \<not> (\<exists>l\<in>set (message_lines demo_host demo_quiet). prefix milestone_tag l)"
proof -
  have "(2 :: int) \<in> MILESTONES"
    by (simp add: MILESTONES_def)
  then show ?thesis
    using
      milestone_line_iff [of demo_host demo_times]
      milestone_line_iff [of demo_host demo_final]
      milestone_line_iff [of demo_host demo_quiet]
    by (simp add: demo_days demo_percent demo_chosen demo_final_days demo_quiet_days)
qed

theorem guard_swallows_storage_errors_witness:
  "existsSync \<lparr>content = Some ''0f'', readable = False, writable = True\<rparr>
   \<and> readFileSync \<lparr>content = Some ''0f'', readable = False, writable = True\<rparr> = Inl EACCES
   \<and> guard_try \<lparr>content = Some ''0f'', readable = False, writable = True\<rparr> ''0f'' = Inl EACCES
   \<and> alreadyPostedGuard \<lparr>content = Some ''0f'', readable = False, writable = True\<rparr> ''0f'' =
       (False, \<lparr>content = Some ''0f'', readable = False, writable = True\<rparr>)
   \<and> writeFileSync \<lparr>content = None, readable = True, writable = False\<rparr> ''0f'' = Inl EACCES
   \<and> \<not> existsSync \<lparr>content = None, readable = True, writable = False\<rparr>
   \<and> alreadyPostedGuard \<lparr>content = None, readable = True, writable = False\<rparr> ''0f'' =
       (False, \<lparr>content = None, readable = True, writable = False\<rparr>)
   \<and> \<not> falsy (SLACK_WEBHOOK_URL demo_env)
   \<and> text_of_run demo_host (demo_clock demo_times) demo_env = Text demo_core
   \<and> published (fst (main demo_host (demo_clock demo_times) demo_env
         \<lparr>content = None, readable = True, writable = False\<rparr>)) = [demo_core]"
proof -
  have "guard_try \<lparr>content = None, readable = True, writable = False\<rparr> hash = Inl EACCES" for hash
    by (simp add: guard_try_def existsSync_def writeFileSync_def)
  then show ?thesis
    using
      guard_swallows_storage_errors [where fs = "\<lparr>content = Some ''0f'', readable = False, writable = True\<rparr>"
        and x = EACCES and hash = "''0f''" and e = demo_env and h = demo_host
        and c = "demo_clock demo_times" and core = demo_core]
      guard_swallows_storage_errors [where fs = "\<lparr>content = None, readable = True, writable = False\<rparr>"
        and x = EACCES and hash = "''0f''" and e = demo_env and h = demo_host
        and c = "demo_clock demo_times" and core = demo_core]
      guard_swallows_storage_errors [where fs = "\<lparr>content = None, readable = True, writable = False\<rparr>"
        and x = EACCES and hash = "hex (md5 demo_host demo_core)" and e = demo_env
        and h = demo_host and c = "demo_clock demo_times" and core = demo_core]
    by (simp add: existsSync_def readFileSync_def writeFileSync_def demo_text(2) demo_facts(4))
qed

theorem second_run_skips_duplicate_witness:
  "readable demo_fs \<and> writable demo_fs \<and> \<not> falsy (SLACK_WEBHOOK_URL demo_env)
   \<and> text_of_run demo_host (demo_clock demo_times) demo_env = Text demo_core
   \<and> snd (main demo_host (demo_clock demo_times) demo_env demo_fs) = demo_stored
   \<and> main demo_host (demo_clock demo_times) demo_env demo_stored = (DuplicateSkip demo_core, demo_stored)
   \<and> published (fst (main demo_host (demo_clock demo_times) demo_env demo_stored)) = []
   \<and> content demo_fs = None
   \<and> alreadyPostedGuard demo_fs ''0f'' = (False, demo_fs\<lparr>content := Some ''0f''\<rparr>)
   \<and> text_of_run demo_host (demo_clock demo_final) demo_env = Text demo_final_core
   \<and> hex (md5 demo_host demo_final_core) \<noteq> hex (md5 demo_host demo_core)
   \<and> published (fst (main demo_host (demo_clock demo_final) demo_env demo_stored)) = [demo_final_core]
   \<and> content (snd (main demo_host (demo_clock demo_final) demo_env demo_stored)) =
       Some (hex (md5 demo_host demo_final_core))"
  using
    second_run_skips_duplicate [where fs = demo_fs and ?e1.0 = demo_env and ?e2.0 = demo_env
      and ?h1.0 = demo_host and ?h2.0 = demo_host and ?c1.0 = "demo_clock demo_times"
      and ?c2.0 = "demo_clock demo_times"
      and core = demo_core and hash = "''0f''" and core' = demo_final_core]
    second_run_skips_duplicate [where fs = demo_fs and ?e1.0 = demo_env and ?e2.0 = demo_env
      and ?h1.0 = demo_host and ?h2.0 = demo_host and ?c1.0 = "demo_clock demo_times"
      and ?c2.0 = "demo_clock demo_final"
      and core = demo_core and hash = "''0f''" and core' = demo_final_core]
  by (simp add: demo_text(2,3) demo_hashes_differ demo_first_run
      demo_second_run demo_facts)

theorem failed_post_is_not_retried_witness:
  "readable demo_fs \<and> writable demo_fs \<and> \<not> falsy (SLACK_WEBHOOK_URL demo_env)
   \<and> main demo_host (demo_clock demo_times) demo_env demo_fs = (PostFailed demo_core, demo_stored)
   \<and> text_of_run demo_host (demo_clock demo_times) demo_env = Text demo_core
   \<and> content demo_stored = Some (hex (md5 demo_host demo_core))
   \<and> exit_status (PostFailed demo_core) = 1
   \<and> main demo_host (demo_clock demo_times) demo_env demo_stored = (DuplicateSkip demo_core, demo_stored)
   \<and> published (DuplicateSkip demo_core) = []"
  using
    failed_post_is_not_retried [where fs = demo_fs and ?e1.0 = demo_env and ?e2.0 = demo_env
      and ?h1.0 = demo_host and ?h2.0 = demo_host and ?c1.0 = "demo_clock demo_times"
      and ?c2.0 = "demo_clock demo_times" and core = demo_core]
  by (simp add: demo_text(2) demo_first_run demo_second_run demo_facts)

text \<open>
  Claim C5 as stated fails: with \<^verbatim>\<open>SLACK_WEBHOOK_URL\<close> set and \<^verbatim>\<open>TZ\<close> set to a time zone that
  the platform does not know, the \<^verbatim>\<open>RangeError\<close> of the time resolver is not caught and the
  run ends with status 1, though no configuration is missing and the publisher is never
  called.
\<close>

theorem exit_status_counterexample:
  "\<not> falsy (SLACK_WEBHOOK_URL demo_zone_env)
   \<and> env_TZ demo_zone_env = Some ''Mars/Phobos''
   \<and> todayLocal (demo_clock demo_times) ''Mars/Phobos'' = Inl RangeError
   \<and> main demo_host (demo_clock demo_times) demo_zone_env demo_fs = (Uncaught RangeError, demo_fs)
   \<and> exit_status (fst (main demo_host (demo_clock demo_times) demo_zone_env demo_fs)) = 1
   \<and> published (fst (main demo_host (demo_clock demo_times) demo_zone_env demo_fs)) = []"
  by (simp add: demo_zone_facts demo_zone_run) (simp add: demo_clock_def)

theorem exit_status_of_run_witness:
  "falsy (SLACK_WEBHOOK_URL demo_blank_env)
   \<and> exit_status (fst (main demo_host (demo_clock demo_times) demo_blank_env demo_fs)) = 1
   \<and> \<not> falsy (SLACK_WEBHOOK_URL demo_zone_env)
   \<and> resolve (demo_clock demo_times) (TZ demo_zone_env) = Inl RangeError
   \<and> exit_status (fst (main demo_host (demo_clock demo_times) demo_zone_env demo_fs)) = 1
   \<and> \<not> falsy (SLACK_WEBHOOK_URL demo_env)
   \<and> resolve (demo_clock demo_late) (TZ demo_env) = Inr demo_late \<and> remaining demo_late < 0
   \<and> main demo_host (demo_clock demo_late) demo_env demo_fs = (WindowElapsed, demo_fs)
   \<and> exit_status (fst (main demo_host (demo_clock demo_late) demo_env demo_fs)) = 0
   \<and> text_of_run demo_host (demo_clock demo_times) demo_env = Text demo_core
   \<and> fst (alreadyPostedGuard demo_stored (hex (md5 demo_host demo_core)))
   \<and> main demo_host (demo_clock demo_times) demo_env demo_stored = (DuplicateSkip demo_core, demo_stored)
   \<and> exit_status (fst (main demo_host (demo_clock demo_times) demo_env demo_stored)) = 0
   \<and> \<not> fst (alreadyPostedGuard demo_fs (hex (md5 demo_host demo_core)))
   \<and> \<not> postMessage demo_host (SLACK_BOT_TOKEN demo_env) demo_core
   \<and> exit_status (fst (main demo_host (demo_clock demo_times) demo_env demo_fs)) = 1"
proof -
  have "fst (alreadyPostedGuard demo_stored (hex (md5 demo_host demo_core)))"
    by (simp add: guard_duplicate [OF demo_facts(9) demo_facts(7) trim_hex])
  moreover have "\<not> fst (alreadyPostedGuard demo_fs (hex (md5 demo_host demo_core)))"
    by (simp add: guard_absent demo_facts)
  moreover have "\<not> postMessage demo_host (SLACK_BOT_TOKEN demo_env) demo_core"
    by (simp add: demo_host_def demo_env_def)
  moreover have "falsy (SLACK_WEBHOOK_URL demo_blank_env)"
    by (simp add: demo_blank_env_def falsy_def)
  ultimately show ?thesis
    using
      exit_status_of_run [where h = demo_host and c = "demo_clock demo_times"
        and e = demo_blank_env and fs = demo_fs and core = demo_core and t = demo_times
        and x = RangeError]
      exit_status_of_run [where h = demo_host and c = "demo_clock demo_times"
        and e = demo_zone_env and fs = demo_fs and core = demo_core and t = demo_times
        and x = RangeError]
      exit_status_of_run [where h = demo_host and c = "demo_clock demo_late"
        and e = demo_env and fs = demo_fs and core = demo_core and t = demo_late
        and x = RangeError]
      exit_status_of_run [where h = demo_host and c = "demo_clock demo_times"
        and e = demo_env and fs = demo_stored and core = demo_core and t = demo_times
        and x = RangeError]
      exit_status_of_run [where h = demo_host and c = "demo_clock demo_times"
        and e = demo_env and fs = demo_fs and core = demo_core and t = demo_times
        and x = RangeError]
    by (simp add: demo_facts demo_zone_facts demo_resolve demo_late_remaining demo_text(2)
        demo_first_run demo_second_run demo_late_run demo_blank_run demo_zone_run)
qed

text \<open>
  Claim C10 as stated fails: with \<^verbatim>\<open>SLACK_WEBHOOK_URL\<close> set and \<^verbatim>\<open>SLACK_BOT_TOKEN\<close> unset, a
  run after the window has elapsed, a run that finds its text already stored and a run
  whose time zone the platform does not know never reach the publisher, and a webhook
  variable set to the empty string fails the configuration check.
\<close>

theorem token_claim_counterexample:
  "SLACK_WEBHOOK_URL demo_env \<noteq> None \<and> SLACK_BOT_TOKEN demo_env = None
   \<and> main demo_host (demo_clock demo_late) demo_env demo_fs = (WindowElapsed, demo_fs)
   \<and> published (fst (main demo_host (demo_clock demo_late) demo_env demo_fs)) = []
   \<and> main demo_host (demo_clock demo_times) demo_env demo_stored = (DuplicateSkip demo_core, demo_stored)
   \<and> published (fst (main demo_host (demo_clock demo_times) demo_env demo_stored)) = []
   \<and> SLACK_WEBHOOK_URL demo_zone_env \<noteq> None \<and> SLACK_BOT_TOKEN demo_zone_env = None
   \<and> main demo_host (demo_clock demo_times) demo_zone_env demo_fs = (Uncaught RangeError, demo_fs)
   \<and> published (fst (main demo_host (demo_clock demo_times) demo_zone_env demo_fs)) = []
   \<and> SLACK_WEBHOOK_URL demo_blank_env \<noteq> None \<and> SLACK_BOT_TOKEN demo_blank_env = None
   \<and> main demo_host (demo_clock demo_times) demo_blank_env demo_fs = (MissingConfig, demo_fs)
   \<and> exit_status (fst (main demo_host (demo_clock demo_times) demo_blank_env demo_fs)) = 1"
  by (simp add: demo_facts demo_zone_facts demo_late_run demo_second_run demo_blank_run
      demo_zone_run)
    (simp add: demo_blank_env_def)

theorem unvalidated_token_reaches_publisher_witness:
  "\<not> falsy (SLACK_WEBHOOK_URL demo_env) \<and> SLACK_BOT_TOKEN demo_env = None
   \<and> resolve (demo_clock demo_times) (TZ demo_env) = Inr demo_times
   \<and> 0 \<le> remaining demo_times
   \<and> compose demo_host demo_times = Text demo_core
   \<and> \<not> fst (alreadyPostedGuard demo_fs (hex (md5 demo_host demo_core)))
   \<and> published (fst (main demo_host (demo_clock demo_times) demo_env demo_fs)) = [demo_core]
   \<and> fst (main demo_host (demo_clock demo_times) demo_env demo_fs) = PostFailed demo_core"
proof -
  have "\<not> fst (alreadyPostedGuard demo_fs (hex (md5 demo_host demo_core)))"
    by (simp add: guard_absent demo_facts)
  then show ?thesis
    using unvalidated_token_reaches_publisher [where h = demo_host and e = demo_env
        and c = "demo_clock demo_times" and fs = demo_fs]
    by (simp add: demo_facts demo_days demo_compose demo_resolve demo_text(2) demo_first_run)
qed

end
